theory Spec2Isabelle
  imports Complex_Main
begin

section \<open>The host: numbers and strings of the JavaScript runtime\<close>

text \<open>
  \<^verbatim>\<open>script.js\<close> computes with the Number type of its runtime, the binary64 values of
  IEEE 754. A finite value is a signed integer times a power of two: \<open>Fin m e\<close> stands
  for \<open>m \<times> 2\<^sup>e\<close>, kept with \<open>m\<close> odd, and zero is \<open>Fin 0 0\<close> (100 is \<open>Fin 25 2\<close>, one half
  is \<open>Fin 1 (- 1)\<close>). The two zeros are identified: no operation of the script tells
  them apart (both are falsy, both are \<open>\<le> 0\<close>, both print as \<open>0.00\<close>). Strings are lists
  of 8-bit code units.
\<close>

datatype jsnum = NaN | PosInf | NegInf | Fin int int

text \<open>The number of digits of \<open>n\<close> in base \<open>b\<close> (0 for \<open>n = 0\<close>).\<close>

function ndigits :: "nat \<Rightarrow> nat \<Rightarrow> nat" where
  "ndigits b n = (if b < 2 \<or> n = 0 then 0 else Suc (ndigits b (n div b)))"
  by pat_completeness auto
termination
  by (relation "measure snd") auto

declare ndigits.simps [simp del]

text \<open>\<open>\<lfloor>log\<^sub>2 (p / q)\<rfloor>\<close> for positive \<open>p\<close> and \<open>q\<close>.\<close>

definition ilog2 :: "nat \<Rightarrow> nat \<Rightarrow> int" where
  "ilog2 p q =
     (let d = int (ndigits 2 p) - int (ndigits 2 q)
      in if q * 2 ^ nat d \<le> p * 2 ^ nat (- d) then d else d - 1)"

text \<open>The integer nearest to \<open>n / d\<close>, a tie going to the even one.\<close>

definition quot_half_even :: "nat \<Rightarrow> nat \<Rightarrow> nat" where
  "quot_half_even n d =
     (let q = n div d; r = n mod d
      in if 2 * r < d then q
         else if d < 2 * r then q + 1
         else if even q then q else q + 1)"

text \<open>\<open>canon m e\<close> is \<open>m \<times> 2\<^sup>e\<close> with the factors of two moved into the exponent.\<close>

function canon :: "int \<Rightarrow> int \<Rightarrow> jsnum" where
  "canon m e =
     (if m = 0 then Fin 0 0
      else if even m then canon (m div 2) (e + 1)
      else Fin m e)"
  by pat_completeness auto
termination
  by (relation "measure (\<lambda>(m, e). nat \<bar>m\<bar>)") auto

declare canon.simps [simp del]

text \<open>
  Rounding the real number \<open>\<plusminus> p / q\<close> to binary64, to nearest with ties to even: 53
  significant bits, exponents from -1022 (below that the spacing stays \<open>2\<close> to the
  \<open>-1074\<close>), overflow to an infinity from \<open>2\<close> to the \<open>1024\<close> on. \<open>k\<close> is the exponent of
  the last bit kept.
\<close>

definition to_double :: "bool \<Rightarrow> nat \<Rightarrow> nat \<Rightarrow> jsnum" where
  "to_double neg p q =
     (if p = 0 then Fin 0 0
      else
        let k = max (ilog2 p q) (- 1022) - 52;
            m = quot_half_even (p * 2 ^ nat (- k)) (q * 2 ^ nat k)
        in if 971 < k \<or> (k = 971 \<and> 2 ^ 53 \<le> m) then (if neg then NegInf else PosInf)
           else canon (if neg then - int m else int m) k)"

text \<open>The double nearest to \<open>m \<times> 2\<^sup>e\<close>.\<close>

definition round_scaled :: "int \<Rightarrow> int \<Rightarrow> jsnum" where
  "round_scaled m e = to_double (m < 0) (nat \<bar>m\<bar> * 2 ^ nat e) (2 ^ nat (- e))"

definition negative :: "jsnum \<Rightarrow> bool" where
  "negative a = (case a of NegInf \<Rightarrow> True | Fin m e \<Rightarrow> m < 0 | _ \<Rightarrow> False)"

definition is_zero :: "jsnum \<Rightarrow> bool" where
  "is_zero a = (case a of Fin m e \<Rightarrow> m = 0 | _ \<Rightarrow> False)"

text \<open>The operator \<^verbatim>\<open>*\<close> on two Numbers.\<close>

fun fmul :: "jsnum \<Rightarrow> jsnum \<Rightarrow> jsnum" where
  "fmul (Fin m1 e1) (Fin m2 e2) = round_scaled (m1 * m2) (e1 + e2)"
| "fmul a b =
     (if a = NaN \<or> b = NaN \<or> is_zero a \<or> is_zero b then NaN
      else if negative a = negative b then PosInf else NegInf)"

definition isNaN :: "jsnum \<Rightarrow> bool" where
  "isNaN a = (a = NaN)"

text \<open>\<^verbatim>\<open>a <= 0\<close> and \<^verbatim>\<open>a > 0\<close>: every comparison with NaN is false.\<close>

definition le_zero :: "jsnum \<Rightarrow> bool" where
  "le_zero a = (case a of Fin m e \<Rightarrow> m \<le> 0 | NegInf \<Rightarrow> True | _ \<Rightarrow> False)"

definition gt_zero :: "jsnum \<Rightarrow> bool" where
  "gt_zero a = (case a of Fin m e \<Rightarrow> 0 < m | PosInf \<Rightarrow> True | _ \<Rightarrow> False)"

text \<open>The truth value of a Number in a condition: zero and NaN are falsy.\<close>

definition truthy :: "jsnum \<Rightarrow> bool" where
  "truthy a = (\<not> isNaN a \<and> \<not> is_zero a)"

text \<open>\<^verbatim>\<open>a === b\<close> on two Numbers: NaN equals nothing.\<close>

definition strict_eq :: "jsnum \<Rightarrow> jsnum \<Rightarrow> bool" where
  "strict_eq a b = (\<not> isNaN a \<and> \<not> isNaN b \<and> a = b)"

subsection \<open>Strings\<close>

text \<open>White space and line terminators among the code units below 256.\<close>

definition is_ws :: "char \<Rightarrow> bool" where
  "is_ws c = (c \<in> set [CHR 0x09, CHR 0x0A, CHR 0x0B, CHR 0x0C, CHR 0x0D, CHR 0x20, CHR 0xA0])"

definition trim :: "string \<Rightarrow> string" where
  "trim s = rev (dropWhile is_ws (rev (dropWhile is_ws s)))"

definition is_digit :: "char \<Rightarrow> bool" where
  "is_digit c = (c \<in> set ''0123456789'')"

definition digit_value :: "char \<Rightarrow> nat" where
  "digit_value c = length (takeWhile (\<lambda>d. d \<noteq> c) ''0123456789'')"

definition digits_value :: "string \<Rightarrow> nat" where
  "digits_value ds = foldl (\<lambda>a c. 10 * a + digit_value c) 0 ds"

text \<open>
  The exponent part of a decimal literal: \<^verbatim>\<open>e\<close> or \<^verbatim>\<open>E\<close>, an optional sign and at
  least one digit. Anything else is not part of the literal and counts as exponent 0.
\<close>

definition exponent_part :: "string \<Rightarrow> int" where
  "exponent_part r =
     (case r of
        [] \<Rightarrow> 0
      | c # r1 \<Rightarrow>
          if c = CHR ''e'' \<or> c = CHR ''E'' then
            (case r1 of
               [] \<Rightarrow> 0
             | d # r2 \<Rightarrow>
                 if d = CHR ''+'' then int (digits_value (takeWhile is_digit r2))
                 else if d = CHR ''-'' then - int (digits_value (takeWhile is_digit r2))
                 else int (digits_value (takeWhile is_digit r1)))
          else 0)"

text \<open>
  An unsigned literal: \<^verbatim>\<open>Infinity\<close>, or digits with an optional fraction and exponent
  (\<^verbatim>\<open>12\<close>, \<^verbatim>\<open>12.\<close>, \<^verbatim>\<open>12.5\<close>, \<^verbatim>\<open>.5\<close>, \<^verbatim>\<open>1e3\<close>). The longest prefix that is a literal is
  read and the rest of the string is ignored; with no such prefix the result is NaN.
  The digits \<open>ip\<close> before and \<open>fp\<close> after the point and the exponent part denote
  \<open>ip fp \<times> 10\<^sup>x\<close>, where \<open>x\<close> is the exponent less the length of \<open>fp\<close>.
\<close>

definition unsigned_literal :: "bool \<Rightarrow> string \<Rightarrow> jsnum" where
  "unsigned_literal neg t =
     (if take 8 t = ''Infinity'' then (if neg then NegInf else PosInf)
      else
        let ip = takeWhile is_digit t;
            r1 = dropWhile is_digit t;
            dot = (r1 \<noteq> [] \<and> hd r1 = CHR ''.'');
            fp = (if dot then takeWhile is_digit (tl r1) else []);
            r2 = (if dot then dropWhile is_digit (tl r1) else r1);
            x = exponent_part r2 - int (length fp)
        in if ip = [] \<and> fp = [] then NaN
           else to_double neg (digits_value (ip @ fp) * 10 ^ nat x) (10 ^ nat (- x)))"

text \<open>The global function \<^verbatim>\<open>parseFloat\<close>.\<close>

definition parseFloat :: "string \<Rightarrow> jsnum" where
  "parseFloat s =
     (case dropWhile is_ws s of
        [] \<Rightarrow> NaN
      | c # t \<Rightarrow>
          if c = CHR ''-'' then unsigned_literal True t
          else if c = CHR ''+'' then unsigned_literal False t
          else unsigned_literal False (c # t))"

subsection \<open>Printing numbers\<close>

definition digit_char :: "nat \<Rightarrow> char" where
  "digit_char d = ''0123456789'' ! d"

function show_nat :: "nat \<Rightarrow> string" where
  "show_nat n =
     (if n < 10 then [digit_char n]
      else show_nat (n div 10) @ [digit_char (n mod 10)])"
  by pat_completeness auto
termination
  by (relation "measure id") auto

declare show_nat.simps [simp del]

definition show_int :: "int \<Rightarrow> string" where
  "show_int i = (if i < 0 then CHR ''-'' # show_nat (nat (- i)) else show_nat (nat i))"

text \<open>
  \<^verbatim>\<open>Number.prototype.toString\<close> for a finite \<open>x \<ge> 10\<^sup>2\<^sup>1\<close> (an integer): the shortest
  digit string \<open>s\<close>, of \<open>k\<close> digits, such that \<open>s \<times> 10\<^sup>n\<^sup>-\<^sup>k\<close> rounds to \<open>x\<close>, printed in
  exponent notation. \<open>shortest_digits j k x n\<close> tries the lengths \<open>k, k + 1, \<dots>\<close>, at
  most \<open>j\<close> of them (17 digits identify every double).
\<close>

fun shortest_digits :: "nat \<Rightarrow> nat \<Rightarrow> nat \<Rightarrow> nat \<Rightarrow> nat \<times> nat" where
  "shortest_digits 0 k x n = (x div 10 ^ (n - k), n)"
| "shortest_digits (Suc j) k x n =
     (let sc = 10 ^ (n - k);
          lo = x div sc;
          hi = lo + 1;
          lo_ok = (to_double False (lo * sc) 1 = to_double False x 1);
          hi_ok = (to_double False (hi * sc) 1 = to_double False x 1);
          lo_near = (x - lo * sc < hi * sc - x \<or> (x - lo * sc = hi * sc - x \<and> even lo));
          pick_hi = (hi_ok \<and> \<not> (lo_ok \<and> lo_near))
      in if pick_hi then (if hi = 10 ^ k then (hi div 10, n + 1) else (hi, n))
         else if lo_ok then (lo, n)
         else shortest_digits j (k + 1) x n)"

definition toString_large :: "nat \<Rightarrow> string" where
  "toString_large x =
     (let (s, n) = shortest_digits 17 1 x (ndigits 10 x);
          ds = show_nat s
      in (if length ds = 1 then ds else hd ds # CHR ''.'' # tl ds) @ ''e+'' @ show_nat (n - 1))"

text \<open>
  \<^verbatim>\<open>Number.prototype.toFixed(f)\<close>. For \<open>\<bar>x\<bar> = p / q\<close> below \<open>10\<^sup>2\<^sup>1\<close> the digits are those
  of the integer \<open>n\<close> nearest to \<open>\<bar>x\<bar> \<times> 10\<^sup>f\<close> (the larger one on a tie), with the point
  put before the last \<open>f\<close> of them.
\<close>

definition toFixed :: "nat \<Rightarrow> jsnum \<Rightarrow> string" where
  "toFixed f a =
     (case a of
        NaN \<Rightarrow> ''NaN''
      | PosInf \<Rightarrow> ''Infinity''
      | NegInf \<Rightarrow> ''-Infinity''
      | Fin m e \<Rightarrow>
          let s = (if m < 0 then ''-'' else []);
              p = nat \<bar>m\<bar> * 2 ^ nat e;
              q = 2 ^ nat (- e)
          in if 10 ^ 21 * q \<le> p then s @ toString_large (p div q)
             else
               let n = (2 * p * 10 ^ f + q) div (2 * q);
                   d = show_nat n;
                   d' = (if length d \<le> f then replicate (f + 1 - length d) CHR ''0'' @ d else d);
                   k = length d'
               in if f = 0 then s @ d'
                  else s @ take (k - f) d' @ ''.'' @ drop (k - f) d')"

section \<open>The page: state of \<^verbatim>\<open>script.js\<close>\<close>

text \<open>
  \<^verbatim>\<open>ratesCache\<close> starts as the empty object and is later whatever \<^verbatim>\<open>data.rates\<close> was
  in a response: an object from currency codes to Numbers (\<open>Rates\<close>, in the order of the
  body), or \<^verbatim>\<open>undefined\<close> or \<^verbatim>\<open>null\<close> when the body had no such object (\<open>Nullish\<close>).
  Reading a property of the latter throws. A rate that is not a Number is outside this
  model, and the codes looked up are the values of the currency selectors, never the
  name of an inherited property of objects.
\<close>

datatype cache = Nullish | Rates "(string \<times> jsnum) list"

datatype exn = TypeError | SyntaxError | Error string

text \<open>\<^verbatim>\<open>ratesCache[toCurr]\<close>: \<open>None\<close> is \<^verbatim>\<open>undefined\<close>.\<close>

definition lookup :: "cache \<Rightarrow> string \<Rightarrow> exn + jsnum option" where
  "lookup c k = (case c of Nullish \<Rightarrow> Inl TypeError | Rates rs \<Rightarrow> Inr (map_of rs k))"

text \<open>
  A history entry as \<^verbatim>\<open>JSON.parse\<close> returns it from \<^verbatim>\<open>localStorage\<close>. The field
  \<^verbatim>\<open>id\<close> is \<open>entry_id\<close> here. \<^verbatim>\<open>JSON.stringify\<close> writes a finite Number as it is and
  any other Number as \<^verbatim>\<open>null\<close>, so the stored amount is one of the two.
\<close>

datatype json_number = Null | Number int int

definition stringify_parse :: "jsnum \<Rightarrow> json_number" where
  "stringify_parse a = (case a of Fin m e \<Rightarrow> Number m e | _ \<Rightarrow> Null)"

record entry =
  entry_id :: int
  fromCurr :: string
  toCurr :: string
  amount :: json_number
  converted :: string
  timestamp :: string

text \<open>
  What one run of a handler reads from the clock: \<^verbatim>\<open>Date.now()\<close> and \<^verbatim>\<open>new Date()\<close> in
  milliseconds, and the text \<^verbatim>\<open>new Date().toLocaleString()\<close>.
\<close>

record clock =
  now :: int
  localeString :: string

text \<open>
  The callbacks handed to \<^verbatim>\<open>setInterval\<close> and \<^verbatim>\<open>setTimeout\<close>: the update closure of
  \<^verbatim>\<open>startAutoUpdate\<close>, the closure that takes the class \<^verbatim>\<open>updating\<close> off the status dot
  after a second, and \<^verbatim>\<open>updateStatus\<close>, armed once when the script loads.
\<close>

datatype timer = AutoUpdate | DotOff | StatusRefresh

text \<open>
  The state: the values and texts of the DOM elements the script reads and writes, its
  four global variables, the \<^verbatim>\<open>conversionHistory\<close> item of \<^verbatim>\<open>localStorage\<close> (\<open>None\<close>
  when the key is not set), the live timers with the next handle the browser will give
  out, and the addresses of the requests that have not settled yet. \<open>displayed\<close> is a
  history variable: every message handed to \<^verbatim>\<open>showError\<close>, oldest first. The leading
  pictograph of the \<^verbatim>\<open>realtimeStatus\<close> text and the console output are left out. The
  storage item is written by this script only, so it always parses to a list of
  entries, and writing it is taken to succeed.
\<close>

record app =
  fromCurrency_value :: string
  toCurrency_value :: string
  amount_value :: string
  amountError_textContent :: string
  amountError_show :: bool
  resultAmount_textContent :: string
  exchangeRate_textContent :: string
  realtimeStatus_textContent :: string
  resultContainer_show :: bool
  lastUpdated_textContent :: string
  statusDot_updating :: bool
  toggleAutoUpdate_textContent :: string
  toggleAutoUpdate_active :: bool
  historyList_items :: "entry list"
  deleteAllBtn_display :: bool
  updateIntervalId :: "nat option"
  autoUpdateEnabled :: bool
  ratesCache :: cache
  lastUpdateTime :: "int option"
  conversionHistory :: "entry list option"
  timers :: "(nat \<times> timer) list"
  nextHandle :: nat
  inflight :: "string list"
  displayed :: "string list"

definition API_URL :: string where
  "API_URL = ''https://api.exchangerate-api.com/v4/latest/''"

subsection \<open>Validation\<close>

definition isValidAmount :: "app \<Rightarrow> bool" where
  "isValidAmount s =
     (amount_value s \<noteq> [] \<and> \<not> isNaN (parseFloat (amount_value s))
      \<and> gt_zero (parseFloat (amount_value s)))"

definition showError :: "string \<Rightarrow> app \<Rightarrow> app" where
  "showError message s =
     s\<lparr>amountError_textContent := message, amountError_show := True,
       displayed := displayed s @ [message]\<rparr>"

definition validateInput :: "app \<Rightarrow> bool \<times> app" where
  "validateInput s =
     (let amountValue = parseFloat (amount_value s)
      in if trim (amount_value s) = [] then (False, showError ''Please enter an amount'' s)
         else if isNaN amountValue then (False, showError ''Please enter a valid number'' s)
         else if le_zero amountValue then (False, showError ''Amount must be greater than 0'' s)
         else (True, s))"

subsection \<open>Fetching rates\<close>

text \<open>
  \<^verbatim>\<open>fetchRatesOnce\<close> is an \<^verbatim>\<open>async\<close> function and no caller awaits it. The call itself
  runs up to the first \<^verbatim>\<open>await\<close>: it reads the base currency and sends the request. The
  rest runs in a later turn of the event loop, when the request has settled
  (\<open>fetchRatesOnce_resume\<close>). Between the two awaits of the source nothing of the state
  is read or written, so both are one step here.

  A request is rejected (the endpoint was not reached), or it gives a response with its
  \<^verbatim>\<open>ok\<close> flag and a body. The body is not JSON (\<^verbatim>\<open>response.json()\<close> rejects), or it is
  the JSON value \<^verbatim>\<open>null\<close>, or it is another JSON value, given by what \<^verbatim>\<open>data.rates\<close>
  evaluates to.
\<close>

datatype body = Malformed | Json_null | Json cache

datatype response = Rejected | Response bool body

definition fetchRatesOnce :: "app \<Rightarrow> app" where
  "fetchRatesOnce s =
     (let fromCurr = fromCurrency_value s
      in s\<lparr>inflight := inflight s @ [API_URL @ fromCurr]\<rparr>)"

definition updateStatus :: "clock \<Rightarrow> app \<Rightarrow> app" where
  "updateStatus c s =
     (case lastUpdateTime s of
        None \<Rightarrow> s
      | Some t \<Rightarrow>
          let diffSeconds = (now c - t) div 1000
          in if diffSeconds < 60
             then s\<lparr>lastUpdated_textContent := ''Last updated: '' @ show_int diffSeconds @ ''s ago''\<rparr>
             else
               let diffMinutes = diffSeconds div 60
               in s\<lparr>lastUpdated_textContent :=
                      ''Last updated: '' @ show_int diffMinutes @ ''m ago''\<rparr>)"

text \<open>The \<^verbatim>\<open>try\<close> block after the request has settled: \<open>Inl\<close> is what it throws.\<close>

definition fetchRatesOnce_try :: "response \<Rightarrow> clock \<Rightarrow> app \<Rightarrow> exn + app" where
  "fetchRatesOnce_try r c s =
     (case r of
        Rejected \<Rightarrow> Inl TypeError
      | Response ok b \<Rightarrow>
          if \<not> ok then Inl (Error ''Failed to fetch exchange rates'')
          else
            (case b of
               Malformed \<Rightarrow> Inl SyntaxError
             | Json_null \<Rightarrow> Inl TypeError
             | Json rates \<Rightarrow>
                 Inr (updateStatus c (s\<lparr>ratesCache := rates, lastUpdateTime := Some (now c)\<rparr>))))"

definition fetchRatesOnce_resume :: "response \<Rightarrow> clock \<Rightarrow> app \<Rightarrow> app" where
  "fetchRatesOnce_resume r c s =
     (case fetchRatesOnce_try r c s of
        Inl error \<Rightarrow>
          showError ''Failed to fetch rates. Please check your internet connection.'' s
      | Inr s' \<Rightarrow> s')"

subsection \<open>History\<close>

text \<open>\<^verbatim>\<open>JSON.parse(localStorage.getItem('conversionHistory')) || []\<close>\<close>

definition stored :: "app \<Rightarrow> entry list" where
  "stored s = (case conversionHistory s of None \<Rightarrow> [] | Some history \<Rightarrow> history)"

text \<open>
  \<^verbatim>\<open>loadHistory\<close> renders the stored entries, one item with a delete button each, and
  shows the button that deletes them all; for the empty history the list is the text
  \<^verbatim>\<open>No conversions yet\<close> and the button is hidden.
\<close>

definition loadHistory :: "app \<Rightarrow> app" where
  "loadHistory s =
     (let history = stored s
      in if history = [] then s\<lparr>historyList_items := [], deleteAllBtn_display := False\<rparr>
         else s\<lparr>historyList_items := history, deleteAllBtn_display := True\<rparr>)"

text \<open>
  The test of \<^verbatim>\<open>addToHistory\<close> on the most recent entry, \<^verbatim>\<open>history[0]\<close>, which is
  \<^verbatim>\<open>undefined\<close> for the empty list. \<^verbatim>\<open>===\<close> between the stored \<^verbatim>\<open>null\<close> and a Number is
  false.
\<close>

definition same_as_last :: "entry list \<Rightarrow> string \<Rightarrow> string \<Rightarrow> jsnum \<Rightarrow> string \<Rightarrow> bool" where
  "same_as_last history f t amt conv =
     (case history of
        [] \<Rightarrow> False
      | lastEntry # rest \<Rightarrow>
          fromCurr lastEntry = f \<and> toCurr lastEntry = t
          \<and> (case amount lastEntry of Null \<Rightarrow> False | Number m e \<Rightarrow> strict_eq (Fin m e) amt)
          \<and> converted lastEntry = conv)"

definition addToHistory :: "clock \<Rightarrow> string \<Rightarrow> string \<Rightarrow> jsnum \<Rightarrow> string \<Rightarrow> app \<Rightarrow> app" where
  "addToHistory c f t amt conv s =
     (let history = stored s
      in if same_as_last history f t amt conv then s
         else
           let new = \<lparr>entry_id = now c, fromCurr = f, toCurr = t, amount = stringify_parse amt,
                      converted = conv, timestamp = localeString c\<rparr>;
               history1 = new # history;
               history2 = (if length history1 > 50 then take 50 history1 else history1)
           in loadHistory (s\<lparr>conversionHistory := Some history2\<rparr>))"

definition deleteHistoryItem :: "int \<Rightarrow> app \<Rightarrow> app" where
  "deleteHistoryItem i s =
     (let history = filter (\<lambda>entry. entry_id entry \<noteq> i) (stored s)
      in loadHistory (s\<lparr>conversionHistory := Some history\<rparr>))"

text \<open>\<open>confirmed\<close> is the answer to the \<^verbatim>\<open>confirm\<close> dialogue.\<close>

definition deleteAllHistory :: "bool \<Rightarrow> app \<Rightarrow> app" where
  "deleteAllHistory confirmed s =
     (if confirmed then loadHistory (s\<lparr>conversionHistory := None\<rparr>) else s)"

subsection \<open>Conversion\<close>

definition displayResult :: "string \<Rightarrow> jsnum \<Rightarrow> string \<Rightarrow> string \<Rightarrow> jsnum \<Rightarrow> app \<Rightarrow> app" where
  "displayResult conv rate f t amt s =
     s\<lparr>resultAmount_textContent := conv,
       exchangeRate_textContent := ''1 '' @ f @ '' = '' @ toFixed 4 rate @ '' '' @ t,
       realtimeStatus_textContent := ''Real-time (Updated)'',
       resultContainer_show := True\<rparr>"

text \<open>The \<^verbatim>\<open>try\<close> block of \<^verbatim>\<open>performConversion\<close>: \<open>Inl\<close> is what it throws.\<close>

definition performConversion_try :: "clock \<Rightarrow> string \<Rightarrow> string \<Rightarrow> jsnum \<Rightarrow> app \<Rightarrow> exn + app" where
  "performConversion_try c f t amt s =
     (case lookup (ratesCache s) t of
        Inl error \<Rightarrow> Inl error
      | Inr None \<Rightarrow> Inl (Error ''Exchange rate not available'')
      | Inr (Some rate) \<Rightarrow>
          if \<not> truthy rate then Inl (Error ''Exchange rate not available'')
          else
            let conv = toFixed 2 (fmul amt rate)
            in Inr (addToHistory c f t amt conv (displayResult conv rate f t amt s)))"

definition performConversion :: "clock \<Rightarrow> app \<Rightarrow> app" where
  "performConversion c s =
     (case validateInput s of
        (False, s1) \<Rightarrow> s1
      | (True, s1) \<Rightarrow>
          let f = fromCurrency_value s1;
              t = toCurrency_value s1;
              amt = parseFloat (amount_value s1)
          in (case performConversion_try c f t amt s1 of
                Inl error \<Rightarrow> showError ''Conversion failed. Please try again.'' s1
              | Inr s2 \<Rightarrow> s2))"

subsection \<open>Timers and the automatic update\<close>

text \<open>
  The browser gives every timer a fresh handle, counting up from 1. \<^verbatim>\<open>clearInterval\<close>
  of a handle that is not live does nothing.
\<close>

definition setTimer :: "timer \<Rightarrow> app \<Rightarrow> nat \<times> app" where
  "setTimer t s =
     (nextHandle s, s\<lparr>timers := timers s @ [(nextHandle s, t)], nextHandle := nextHandle s + 1\<rparr>)"

definition clearInterval :: "nat \<Rightarrow> app \<Rightarrow> app" where
  "clearInterval h s = s\<lparr>timers := filter (\<lambda>(i, t). i \<noteq> h) (timers s)\<rparr>"

text \<open>The closure that \<^verbatim>\<open>startAutoUpdate\<close> hands to \<^verbatim>\<open>setInterval\<close>.\<close>

definition tick :: "clock \<Rightarrow> app \<Rightarrow> app" where
  "tick c s =
     (if autoUpdateEnabled s then
        let s1 = s\<lparr>statusDot_updating := True\<rparr>;
            s2 = fetchRatesOnce s1;
            s3 = snd (setTimer DotOff s2)
        in if isValidAmount s3 then performConversion c s3 else s3
      else s)"

definition startAutoUpdate :: "app \<Rightarrow> app" where
  "startAutoUpdate s =
     (let s1 = (case updateIntervalId s of
                  None \<Rightarrow> s
                | Some h \<Rightarrow> if h \<noteq> 0 then clearInterval h s else s);
          s2 = fetchRatesOnce s1;
          (h, s3) = setTimer AutoUpdate s2
      in s3\<lparr>updateIntervalId := Some h\<rparr>)"

definition toggleAutoUpdateMode :: "app \<Rightarrow> app" where
  "toggleAutoUpdateMode s =
     (let s1 = s\<lparr>autoUpdateEnabled := \<not> autoUpdateEnabled s\<rparr>;
          s2 = s1\<lparr>toggleAutoUpdate_textContent :=
                    (if autoUpdateEnabled s1 then ''Auto-Update: ON'' else ''Auto-Update: OFF'')\<rparr>;
          s3 = s2\<lparr>toggleAutoUpdate_active := autoUpdateEnabled s2\<rparr>
      in if autoUpdateEnabled s3 then startAutoUpdate s3 else s3)"

subsection \<open>The form\<close>

definition clearForm :: "app \<Rightarrow> app" where
  "clearForm s = s\<lparr>amount_value := [], resultContainer_show := False, amountError_show := False\<rparr>"

definition swapCurrencies :: "clock \<Rightarrow> app \<Rightarrow> app" where
  "swapCurrencies c s =
     (let temp = fromCurrency_value s;
          s1 = s\<lparr>fromCurrency_value := toCurrency_value s\<rparr>;
          s2 = s1\<lparr>toCurrency_value := temp\<rparr>;
          s3 = fetchRatesOnce s2
      in if isValidAmount s3 then performConversion c s3 else s3)"

subsection \<open>The event loop\<close>

text \<open>
  What can happen to the page, one handler run at a time: the listeners that
  \<^verbatim>\<open>setupEventListeners\<close> attaches, the delete button that \<^verbatim>\<open>loadHistory\<close> renders for
  every entry, a live timer firing, and a request that is in flight settling (the
  requests are numbered in the order they were sent and may settle in any order).
  The listeners of the about dialogue only show and hide it and are left out, as is
  the \<^verbatim>\<open>beforeunload\<close> listener, after which nothing of the page runs.
\<close>

datatype event =
    Input string
  | KeypressEnter
  | ChangeFrom string
  | ChangeTo string
  | ClickSwap
  | ClickClear
  | ClickToggle
  | ClickDeleteAll bool
  | ClickDelete int
  | TimerFires nat
  | FetchSettles nat response

definition convertIfValid :: "clock \<Rightarrow> app \<Rightarrow> app" where
  "convertIfValid c s = (if isValidAmount s then performConversion c s else s)"

definition dispatch :: "clock \<Rightarrow> event \<Rightarrow> app \<Rightarrow> app" where
  "dispatch c ev s =
     (case ev of
        Input v \<Rightarrow> convertIfValid c (s\<lparr>amount_value := v, amountError_show := False\<rparr>)
      | KeypressEnter \<Rightarrow> performConversion c s
      | ChangeFrom v \<Rightarrow> convertIfValid c (s\<lparr>fromCurrency_value := v\<rparr>)
      | ChangeTo v \<Rightarrow> convertIfValid c (s\<lparr>toCurrency_value := v\<rparr>)
      | ClickSwap \<Rightarrow> swapCurrencies c s
      | ClickClear \<Rightarrow> clearForm s
      | ClickToggle \<Rightarrow> toggleAutoUpdateMode s
      | ClickDeleteAll confirmed \<Rightarrow> deleteAllHistory confirmed s
      | ClickDelete i \<Rightarrow> deleteHistoryItem i s
      | TimerFires h \<Rightarrow>
          (case map_of (timers s) h of
             None \<Rightarrow> s
           | Some AutoUpdate \<Rightarrow> tick c s
           | Some DotOff \<Rightarrow> (clearInterval h s)\<lparr>statusDot_updating := False\<rparr>
           | Some StatusRefresh \<Rightarrow> updateStatus c s)
      | FetchSettles k r \<Rightarrow>
          if k < length (inflight s)
          then fetchRatesOnce_resume r c
                 (s\<lparr>inflight := take k (inflight s) @ drop (Suc k) (inflight s)\<rparr>)
          else s)"

text \<open>
  The page once the script has run and \<^verbatim>\<open>DOMContentLoaded\<close> has been handled, for the
  two selected currencies, the label of the toggle button and the stored history the
  document starts with: the globals have their initial values, \<^verbatim>\<open>updateStatus\<close> is armed
  every second, the history is rendered, and two requests are on their way, one sent by
  the handler and one by \<^verbatim>\<open>startAutoUpdate\<close>. The markup of the page is not among the
  sources: the texts the script writes are taken to start empty and the amount field
  to hold any text.
\<close>

definition script_loaded :: "string \<Rightarrow> string \<Rightarrow> string \<Rightarrow> entry list option \<Rightarrow> app" where
  "script_loaded f t label h =
     \<lparr>fromCurrency_value = f, toCurrency_value = t, amount_value = [],
      amountError_textContent = [], amountError_show = False,
      resultAmount_textContent = [], exchangeRate_textContent = [],
      realtimeStatus_textContent = [], resultContainer_show = False,
      lastUpdated_textContent = [], statusDot_updating = False,
      toggleAutoUpdate_textContent = label, toggleAutoUpdate_active = True,
      historyList_items = [], deleteAllBtn_display = False,
      updateIntervalId = None, autoUpdateEnabled = True, ratesCache = Rates [],
      lastUpdateTime = None, conversionHistory = h,
      timers = [(1, StatusRefresh)], nextHandle = 2, inflight = [], displayed = []\<rparr>"

definition page_loaded :: "string \<Rightarrow> string \<Rightarrow> string \<Rightarrow> entry list option \<Rightarrow> app" where
  "page_loaded f t label h = startAutoUpdate (fetchRatesOnce (loadHistory (script_loaded f t label h)))"

subsection \<open>The validation order of the specification\<close>

text \<open>
  The specification names four failures of a conversion and orders the checks: the
  amount field is blank; it is not parseable as a number; the amount is not positive;
  the cache has no rate for the target currency. \<open>spec_first_failure\<close> is that order,
  written from the specification, and \<open>message\<close> is the text the page shows for each.
\<close>

datatype failure = EmptyInput | InvalidNumber | NonPositiveAmount | RateUnavailable

definition blank :: "string \<Rightarrow> bool" where
  "blank v = list_all is_ws v"

definition absent :: "cache \<Rightarrow> string \<Rightarrow> bool" where
  "absent c k = (case c of Nullish \<Rightarrow> True | Rates rs \<Rightarrow> map_of rs k = None)"

definition spec_first_failure :: "string \<Rightarrow> cache \<Rightarrow> string \<Rightarrow> failure option" where
  "spec_first_failure v c k =
     (if blank v then Some EmptyInput
      else if parseFloat v = NaN then Some InvalidNumber
      else if le_zero (parseFloat v) then Some NonPositiveAmount
      else if absent c k then Some RateUnavailable
      else None)"

fun message :: "failure \<Rightarrow> string" where
  "message EmptyInput = ''Please enter an amount''"
| "message InvalidNumber = ''Please enter a valid number''"
| "message NonPositiveAmount = ''Amount must be greater than 0''"
| "message RateUnavailable = ''Conversion failed. Please try again.''"

text \<open>
  A fetch fails when the endpoint is not reached, when the status is not a success, or
  when the body is malformed: it is not JSON (\<^verbatim>\<open>response.json()\<close> rejects) or it is the
  JSON value \<^verbatim>\<open>null\<close> (reading \<^verbatim>\<open>data.rates\<close> throws). These are the responses for which
  the \<^verbatim>\<open>try\<close> block of \<^verbatim>\<open>fetchRatesOnce\<close> throws.
\<close>

definition failed :: "response \<Rightarrow> bool" where
  "failed r = (case r of Rejected \<Rightarrow> True | Response ok b \<Rightarrow> \<not> ok \<or> b = Malformed \<or> b = Json_null)"

subsection \<open>The rounding of the specification\<close>

text \<open>
  The specification computes with real numbers: the converted amount is
  \<open>round(amount \<times> rate, 2 decimal places)\<close>. \<open>real_value\<close> is the real number a finite Number
  stands for; \<open>spec_round2 x\<close> is \<open>x\<close> rounded to two decimals, counted in hundredths
  (the nearest one, the larger on a tie), and \<open>spec_decimal2 n\<close> is the numeral of \<open>n\<close>
  hundredths, with its two decimals. They are written from the specification, not
  from \<^verbatim>\<open>toFixed\<close>.
\<close>

definition real_value :: "jsnum \<Rightarrow> real" where
  "real_value a = (case a of Fin m e \<Rightarrow> of_int m * 2 powi e | _ \<Rightarrow> 0)"

definition spec_round2 :: "real \<Rightarrow> int" where
  "spec_round2 x = round (100 * x)"

definition spec_decimal2 :: "nat \<Rightarrow> string" where
  "spec_decimal2 n =
     show_nat (n div 100) @ ''.'' @ [digit_char (n div 10 mod 10), digit_char (n mod 10)]"

text \<open>
  The binary64 numbers among the reals: an integer of less than 53 bits times a power of
  two not below \<open>2\<close> to the \<open>-1074\<close>, of magnitude below \<open>2\<close> to the \<open>1024\<close>. \<open>y\<close> is a
  binary64 number nearest to \<open>x\<close> when no binary64 number is closer to \<open>x\<close>.
\<close>

definition binary64 :: "real \<Rightarrow> bool" where
  "binary64 x =
     (\<exists>m e. x = of_int m * 2 powi e \<and> \<bar>m\<bar> < 2 ^ 53 \<and> - 1074 \<le> e \<and> \<bar>x\<bar> < 2 ^ 1024)"

definition nearest_binary64 :: "real \<Rightarrow> real \<Rightarrow> bool" where
  "nearest_binary64 x y = (binary64 y \<and> (\<forall>z. binary64 z \<longrightarrow> \<bar>y - x\<bar> \<le> \<bar>z - x\<bar>))"

subsection \<open>Sample states\<close>

definition clock0 :: clock where
  "clock0 = \<lparr>now = 1700000000000, localeString = ''14/11/2023, 22:13:20''\<rparr>"

text \<open>
  The page converting US dollars to euros, after the first of its requests has brought
  the rates \<open>rs\<close>, with the text \<open>v\<close> in the amount field.
\<close>

definition usd_page :: "(string \<times> jsnum) list \<Rightarrow> string \<Rightarrow> app" where
  "usd_page rs v =
     (dispatch clock0 (FetchSettles 0 (Response True (Json (Rates rs))))
        (page_loaded ''USD'' ''EUR'' ''Auto-Update: ON'' None))\<lparr>amount_value := v\<rparr>"

text \<open>The double nearest to 0.92.\<close>

definition rate_0_92 :: jsnum where
  "rate_0_92 = Fin 8286623314361713 (- 53)"

text \<open>
  The page with no rates yet, as it is right after loading, and the page with the rate
  one half for the euro and 100 in the amount field.
\<close>

definition fresh_page :: app where
  "fresh_page = page_loaded ''USD'' ''EUR'' ''Auto-Update: ON'' None"

definition half_page :: app where
  "half_page = usd_page [(''EUR'', Fin 1 (- 1))] ''100''"

text \<open>
  The response of the provider with three quarters for the euro, and the page after the
  update timer has fired on \<open>half_page\<close>.
\<close>

definition three_quarters :: response where
  "three_quarters = Response True (Json (Rates [(''EUR'', Fin 3 (- 2))]))"

definition ticked_page :: app where
  "ticked_page = dispatch clock0 (TimerFires 2) half_page"

text \<open>
  The entry of a conversion of the odd amount \<open>2 i + 1\<close> at the rate 1, made at the
  millisecond \<open>i\<close>; and a page whose history holds 50 of them, the most recent first.
\<close>

definition sample_entry :: "nat \<Rightarrow> entry" where
  "sample_entry i =
     \<lparr>entry_id = int i, fromCurr = ''USD'', toCurr = ''EUR'', amount = Number (2 * int i + 1) 0,
      converted = show_nat (2 * i + 1) @ ''.00'', timestamp = show_nat i\<rparr>"

definition full_page :: app where
  "full_page = loadHistory (fresh_page\<lparr>conversionHistory := Some (map sample_entry (rev [1..<51]))\<rparr>)"

text \<open>
  The page after the user has typed 1 and then 2 into the amount field, the clock
  reading the same millisecond at both input events.
\<close>

definition same_ms_page :: app where
  "same_ms_page =
     dispatch clock0 (Input ''12'') (dispatch clock0 (Input ''1'') (usd_page [(''EUR'', Fin 1 (- 1))] []))"

text \<open>
  The double nearest to one twenty-fourth, which \<^verbatim>\<open>JSON.parse\<close> reads from
  \<^verbatim>\<open>0.041666666666666664\<close>, and the page with that rate for the euro and 3 in the amount
  field.
\<close>

definition one_24th :: jsnum where
  "one_24th = Fin 6004799503160661 (- 57)"

definition one_24th_page :: app where
  "one_24th_page = usd_page [(''EUR'', one_24th)] ''3''"

section \<open>Evaluating the host functions\<close>

lemma ndigits_zero: "ndigits b 0 = 0"
  by (simp add: ndigits.simps)

lemma ndigits_pos: "2 \<le> b \<Longrightarrow> 0 < n \<Longrightarrow> ndigits b n = Suc (ndigits b (n div b))"
  by (subst ndigits.simps) simp

lemma canon_zero: "canon 0 e = Fin 0 0"
  by (simp add: canon.simps)

lemma canon_even: "m \<noteq> 0 \<Longrightarrow> even m \<Longrightarrow> canon m e = canon (m div 2) (e + 1)"
  by (subst canon.simps) simp

lemma canon_odd: "odd m \<Longrightarrow> canon m e = Fin m e"
  by (subst canon.simps) auto

lemma show_nat_digit: "n < 10 \<Longrightarrow> show_nat n = [digit_char n]"
  by (subst show_nat.simps) simp

lemma show_nat_step: "10 \<le> n \<Longrightarrow> show_nat n = show_nat (n div 10) @ [digit_char (n mod 10)]"
  by (subst show_nat.simps) simp

lemmas host_eval =
  to_double_def round_scaled_def ilog2_def quot_half_even_def ndigits_zero ndigits_pos
  canon_zero canon_even canon_odd show_nat_digit show_nat_step digit_char_def toFixed_def
  parseFloat_def unsigned_literal_def is_ws_def is_digit_def digit_value_def
  digits_value_def exponent_part_def negative_def is_zero_def Let_def

lemmas app_eval =
  dispatch_def page_loaded_def script_loaded_def startAutoUpdate_def fetchRatesOnce_def
  fetchRatesOnce_resume_def fetchRatesOnce_try_def updateStatus_def loadHistory_def stored_def
  setTimer_def clearInterval_def tick_def toggleAutoUpdateMode_def showError_def
  validateInput_def isValidAmount_def convertIfValid_def performConversion_def
  performConversion_try_def lookup_def displayResult_def addToHistory_def same_as_last_def
  deleteHistoryItem_def deleteAllHistory_def swapCurrencies_def clearForm_def
  stringify_parse_def strict_eq_def truthy_def isNaN_def gt_zero_def le_zero_def trim_def
  show_int_def API_URL_def usd_page_def clock0_def rate_0_92_def
  spec_first_failure_def blank_def absent_def failed_def fresh_page_def half_page_def
  three_quarters_def ticked_page_def sample_entry_def full_page_def same_ms_page_def
  one_24th_def one_24th_page_def

section \<open>Basic facts\<close>

subsection \<open>Amounts and validation\<close>

lemma trim_empty_iff: "trim v = [] \<longleftrightarrow> (\<forall>c\<in>set v. is_ws c)"
proof
  assume "trim v = []"
  then have all: "\<forall>c\<in>set (dropWhile is_ws v). is_ws c"
    by (simp add: trim_def)
  have "dropWhile is_ws v = []"
  proof (rule ccontr)
    assume ne: "dropWhile is_ws v \<noteq> []"
    then have "\<not> is_ws (hd (dropWhile is_ws v))"
      by (rule hd_dropWhile)
    moreover have "hd (dropWhile is_ws v) \<in> set (dropWhile is_ws v)"
      using ne by simp
    ultimately show False using all by blast
  qed
  then show "\<forall>c\<in>set v. is_ws c"
    by simp
next
  assume "\<forall>c\<in>set v. is_ws c"
  then show "trim v = []"
    by (auto simp: trim_def dest: set_dropWhileD)
qed


lemma parseFloat_blank: "trim v = [] \<Longrightarrow> parseFloat v = NaN"
proof -
  assume "trim v = []"
  then have d: "dropWhile is_ws v = []"
    by (simp add: trim_empty_iff)
  show ?thesis
    unfolding parseFloat_def d by simp
qed

lemma gt_zero_cases: "gt_zero a \<Longrightarrow> \<not> isNaN a \<and> \<not> le_zero a"
  by (cases a) (auto simp: gt_zero_def isNaN_def le_zero_def)

lemma gt_zero_truthy: "gt_zero a \<Longrightarrow> truthy a"
  by (cases a) (auto simp: gt_zero_def truthy_def isNaN_def is_zero_def)


lemma displayed_showError: "displayed (showError m s) = displayed s @ [m]"
  by (simp add: showError_def)

lemma showError_frame:
  "ratesCache (showError m s) = ratesCache s"
  "resultAmount_textContent (showError m s) = resultAmount_textContent s"
  "conversionHistory (showError m s) = conversionHistory s"
  "amount_value (showError m s) = amount_value s"
  "toCurrency_value (showError m s) = toCurrency_value s"
  "fromCurrency_value (showError m s) = fromCurrency_value s"
  by (simp_all add: showError_def)

lemma validateInput_valid:
  "gt_zero (parseFloat (amount_value s)) \<Longrightarrow> validateInput s = (True, s)"
proof -
  assume pos: "gt_zero (parseFloat (amount_value s))"
  then have "parseFloat (amount_value s) \<noteq> NaN"
    by (auto simp: gt_zero_def)
  then have "trim (amount_value s) \<noteq> []"
    using parseFloat_blank by blast
  then show ?thesis
    using gt_zero_cases[OF pos] by (simp add: validateInput_def)
qed

lemma isValidAmount_iff: "isValidAmount s \<longleftrightarrow> gt_zero (parseFloat (amount_value s))"
proof -
  have "amount_value s \<noteq> []" if "gt_zero (parseFloat (amount_value s))"
  proof
    assume "amount_value s = []"
    then have "parseFloat (amount_value s) = NaN"
      by (simp add: parseFloat_def)
    with that show False by (simp add: gt_zero_def)
  qed
  then show ?thesis
    using gt_zero_cases by (auto simp: isValidAmount_def)
qed

subsection \<open>The stored history\<close>

lemma stored_loadHistory: "stored (loadHistory s) = stored s"
  by (simp add: loadHistory_def stored_def Let_def)

lemma stored_set: "stored (s\<lparr>conversionHistory := Some h\<rparr>) = h"
  by (simp add: stored_def)

lemma stored_addToHistory:
  "stored (addToHistory c f t amt conv s) =
     (if same_as_last (stored s) f t amt conv then stored s
      else take 50 (\<lparr>entry_id = now c, fromCurr = f, toCurr = t, amount = stringify_parse amt,
                      converted = conv, timestamp = localeString c\<rparr> # stored s))"
  by (simp add: addToHistory_def Let_def stored_loadHistory stored_set)

lemma same_as_last_fin:
  "same_as_last h f t (Fin m e) conv =
     (case h of [] \<Rightarrow> False
      | x # rest \<Rightarrow> fromCurr x = f \<and> toCurr x = t \<and> amount x = Number m e \<and> converted x = conv)"
  by (auto simp: same_as_last_def strict_eq_def isNaN_def split: list.splits json_number.splits)

lemma same_as_last_after:
  "same_as_last (stored (addToHistory c f t (Fin m e) conv s)) f t (Fin m e) conv"
  by (auto simp: stored_addToHistory same_as_last_fin stringify_parse_def split: list.splits)

lemma addToHistory_frame:
  "ratesCache (addToHistory c f t amt conv s) = ratesCache s"
  "resultAmount_textContent (addToHistory c f t amt conv s) = resultAmount_textContent s"
  "exchangeRate_textContent (addToHistory c f t amt conv s) = exchangeRate_textContent s"
  "displayed (addToHistory c f t amt conv s) = displayed s"
  by (simp_all add: addToHistory_def loadHistory_def Let_def)

lemma addToHistory_head:
  assumes "\<not> isNaN amt"
  shows "case stored (addToHistory c f t amt conv s) of
           [] \<Rightarrow> False
         | x # rest \<Rightarrow> fromCurr x = f \<and> toCurr x = t \<and> amount x = stringify_parse amt
                       \<and> converted x = conv"
proof (cases "same_as_last (stored s) f t amt conv")
  case True
  then show ?thesis
    using assms
    by (auto simp: stored_addToHistory same_as_last_def strict_eq_def stringify_parse_def
          split: list.splits json_number.splits)
next
  case False
  then show ?thesis
    by (simp add: stored_addToHistory)
qed

lemma stored_frame:
  "stored (showError m s) = stored s"
  "stored (fetchRatesOnce s) = stored s"
  "stored (updateStatus c s) = stored s"
  "stored (clearInterval h s) = stored s"
  "stored (startAutoUpdate s) = stored s"
  "stored (clearForm s) = stored s"
  "stored (fetchRatesOnce_resume r c s) = stored s"
  "stored (displayResult conv rate f t amt s) = stored s"
  by (auto simp: stored_def showError_def fetchRatesOnce_def updateStatus_def clearInterval_def
        startAutoUpdate_def setTimer_def clearForm_def fetchRatesOnce_resume_def
        fetchRatesOnce_try_def displayResult_def Let_def
        split: option.splits response.splits body.splits)

subsection \<open>Converting\<close>

lemma performConversion_valid:
  assumes "gt_zero (parseFloat (amount_value s))"
  shows "performConversion c s =
     (case performConversion_try c (fromCurrency_value s) (toCurrency_value s)
             (parseFloat (amount_value s)) s of
        Inl error \<Rightarrow> showError ''Conversion failed. Please try again.'' s
      | Inr s2 \<Rightarrow> s2)"
  by (simp add: performConversion_def validateInput_valid[OF assms])

lemma performConversion_success:
  assumes "gt_zero (parseFloat (amount_value s))"
    and "ratesCache s = Rates rs"
    and "map_of rs (toCurrency_value s) = Some rate"
    and "truthy rate"
  shows "performConversion c s =
     addToHistory c (fromCurrency_value s) (toCurrency_value s) (parseFloat (amount_value s))
       (toFixed 2 (fmul (parseFloat (amount_value s)) rate))
       (displayResult (toFixed 2 (fmul (parseFloat (amount_value s)) rate)) rate
          (fromCurrency_value s) (toCurrency_value s) (parseFloat (amount_value s)) s)"
  using assms(2-4)
  by (simp add: performConversion_valid[OF assms(1)] performConversion_try_def lookup_def Let_def)

lemma performConversion_unavailable:
  assumes "gt_zero (parseFloat (amount_value s))"
    and "case lookup (ratesCache s) (toCurrency_value s) of
           Inl error \<Rightarrow> True | Inr None \<Rightarrow> True | Inr (Some rate) \<Rightarrow> \<not> truthy rate"
  shows "performConversion c s = showError ''Conversion failed. Please try again.'' s"
  using assms(2)
  by (simp add: performConversion_valid[OF assms(1)] performConversion_try_def Let_def
        split: sum.splits option.splits)

lemma performConversion_displays:
  assumes "gt_zero (parseFloat (amount_value s))"
    and "ratesCache s = Rates rs" and "map_of rs (toCurrency_value s) = Some r"
    and "truthy r"
  shows "resultAmount_textContent (performConversion c s)
           = toFixed 2 (fmul (parseFloat (amount_value s)) r)"
    and "exchangeRate_textContent (performConversion c s) =
           ''1 '' @ fromCurrency_value s @ '' = '' @ toFixed 4 r @ '' '' @ toCurrency_value s"
    and "resultContainer_show (performConversion c s)"
    and "displayed (performConversion c s) = displayed s"
    and "case stored (performConversion c s) of
           [] \<Rightarrow> False
         | x # rest \<Rightarrow>
             fromCurr x = fromCurrency_value s \<and> toCurr x = toCurrency_value s
             \<and> amount x = stringify_parse (parseFloat (amount_value s))
             \<and> converted x = toFixed 2 (fmul (parseFloat (amount_value s)) r)"
proof -
  note conv = performConversion_success[OF assms, of c]
  have show_frame: "resultContainer_show (addToHistory c f t amt cv s') = resultContainer_show s'"
    for f t amt cv s'
    by (simp add: addToHistory_def loadHistory_def Let_def)
  show "resultAmount_textContent (performConversion c s)
           = toFixed 2 (fmul (parseFloat (amount_value s)) r)"
    by (simp add: conv addToHistory_frame displayResult_def)
  show "exchangeRate_textContent (performConversion c s) =
           ''1 '' @ fromCurrency_value s @ '' = '' @ toFixed 4 r @ '' '' @ toCurrency_value s"
    by (simp add: conv addToHistory_frame displayResult_def)
  show "resultContainer_show (performConversion c s)"
    by (simp add: conv show_frame displayResult_def)
  show "displayed (performConversion c s) = displayed s"
    by (simp add: conv addToHistory_frame displayResult_def)
  have "\<not> isNaN (parseFloat (amount_value s))"
    using gt_zero_cases[OF assms(1)] by simp
  from addToHistory_head[OF this]
  show "case stored (performConversion c s) of
           [] \<Rightarrow> False
         | x # rest \<Rightarrow>
             fromCurr x = fromCurrency_value s \<and> toCurr x = toCurrency_value s
             \<and> amount x = stringify_parse (parseFloat (amount_value s))
             \<and> converted x = toFixed 2 (fmul (parseFloat (amount_value s)) r)"
    by (simp add: conv)
qed

lemma performConversion_frame:
  "inflight (performConversion c s) = inflight s"
  "timers (performConversion c s) = timers s"
  "updateIntervalId (performConversion c s) = updateIntervalId s"
proof -
  have v: "validateInput s = (True, s) \<or> (\<exists>m. validateInput s = (False, showError m s))"
    by (auto simp: validateInput_def Let_def)
  have a: "inflight (addToHistory c f t amt conv s') = inflight s'"
    "timers (addToHistory c f t amt conv s') = timers s'"
    "updateIntervalId (addToHistory c f t amt conv s') = updateIntervalId s'"
    for f t amt conv s'
    by (simp_all add: addToHistory_def loadHistory_def Let_def)
  show "inflight (performConversion c s) = inflight s"
    using v by (auto simp: performConversion_def performConversion_try_def Let_def showError_def
          a displayResult_def split: sum.splits option.splits)
  show "timers (performConversion c s) = timers s"
    using v by (auto simp: performConversion_def performConversion_try_def Let_def showError_def
          a displayResult_def split: sum.splits option.splits)
  show "updateIntervalId (performConversion c s) = updateIntervalId s"
    using v by (auto simp: performConversion_def performConversion_try_def Let_def showError_def
          a displayResult_def split: sum.splits option.splits)
qed

subsection \<open>The cache\<close>

lemma ratesCache_performConversion: "ratesCache (performConversion c s) = ratesCache s"
proof -
  have v: "ratesCache (snd (validateInput s)) = ratesCache s"
    by (simp add: validateInput_def Let_def showError_frame)
  show ?thesis
  proof (cases "validateInput s")
    case (Pair ok s1)
    with v have s1: "ratesCache s1 = ratesCache s" by simp
    show ?thesis
    proof (cases ok)
      case False
      with Pair s1 show ?thesis
        by (simp add: performConversion_def)
    next
      case True
      with Pair s1 show ?thesis
        by (auto simp: performConversion_def performConversion_try_def Let_def showError_frame
              addToHistory_frame displayResult_def split: sum.splits option.splits)
    qed
  qed
qed

lemma ratesCache_convertIfValid: "ratesCache (convertIfValid c s) = ratesCache s"
  by (simp add: convertIfValid_def ratesCache_performConversion)

lemma ratesCache_fetchRatesOnce: "ratesCache (fetchRatesOnce s) = ratesCache s"
  by (simp add: fetchRatesOnce_def)

lemma ratesCache_startAutoUpdate: "ratesCache (startAutoUpdate s) = ratesCache s"
  by (simp add: startAutoUpdate_def fetchRatesOnce_def setTimer_def clearInterval_def Let_def
        split: option.splits)

lemma ratesCache_tick: "ratesCache (tick c s) = ratesCache s"
  by (simp add: tick_def ratesCache_performConversion fetchRatesOnce_def setTimer_def Let_def)

lemma ratesCache_updateStatus: "ratesCache (updateStatus c s) = ratesCache s"
  by (simp add: updateStatus_def Let_def split: option.splits)

lemma ratesCache_loadHistory: "ratesCache (loadHistory s) = ratesCache s"
  by (simp add: loadHistory_def Let_def)

lemma fetchRatesOnce_resume_success:
  "fetchRatesOnce_resume (Response True (Json rates)) c s =
     updateStatus c (s\<lparr>ratesCache := rates, lastUpdateTime := Some (now c)\<rparr>)"
  by (simp add: fetchRatesOnce_resume_def fetchRatesOnce_try_def)

lemma fetchRatesOnce_resume_failed:
  "failed r \<Longrightarrow> fetchRatesOnce_resume r c s =
     showError ''Failed to fetch rates. Please check your internet connection.'' s"
  by (auto simp: failed_def fetchRatesOnce_resume_def fetchRatesOnce_try_def
        split: response.splits body.splits)

subsection \<open>The scheduler\<close>

lemma tick_disabled: "\<not> autoUpdateEnabled s \<Longrightarrow> tick c s = s"
  by (simp add: tick_def)

lemma tick_enabled:
  "autoUpdateEnabled s \<Longrightarrow> gt_zero (parseFloat (amount_value s)) \<Longrightarrow>
   tick c s =
     performConversion c
       (s\<lparr>statusDot_updating := True,
          inflight := inflight s @ [API_URL @ fromCurrency_value s],
          timers := timers s @ [(nextHandle s, DotOff)],
          nextHandle := nextHandle s + 1\<rparr>)"
  by (simp add: tick_def fetchRatesOnce_def setTimer_def Let_def isValidAmount_iff)

lemma toggle_off:
  "autoUpdateEnabled s \<Longrightarrow>
   toggleAutoUpdateMode s =
     s\<lparr>autoUpdateEnabled := False, toggleAutoUpdate_textContent := ''Auto-Update: OFF'',
       toggleAutoUpdate_active := False\<rparr>"
  by (simp add: toggleAutoUpdateMode_def)

lemma toggle_on:
  "\<not> autoUpdateEnabled s \<Longrightarrow>
   toggleAutoUpdateMode s =
     startAutoUpdate
       (s\<lparr>autoUpdateEnabled := True, toggleAutoUpdate_textContent := ''Auto-Update: ON'',
          toggleAutoUpdate_active := True\<rparr>)"
  by (simp add: toggleAutoUpdateMode_def)

lemma startAutoUpdate_effect:
  "updateIntervalId (startAutoUpdate s) = Some (nextHandle s)"
  "timers (startAutoUpdate s) =
     filter (\<lambda>(i, t). \<not> (updateIntervalId s = Some i \<and> i \<noteq> 0)) (timers s)
     @ [(nextHandle s, AutoUpdate)]"
  "inflight (startAutoUpdate s) = inflight s @ [API_URL @ fromCurrency_value s]"
  "nextHandle (startAutoUpdate s) = nextHandle s + 1"
  "autoUpdateEnabled (startAutoUpdate s) = autoUpdateEnabled s"
  by (auto simp: startAutoUpdate_def fetchRatesOnce_def setTimer_def clearInterval_def Let_def
        split: option.splits intro!: filter_cong)

subsection \<open>Rounding to two decimals\<close>

text \<open>
  \<^verbatim>\<open>toFixed(2)\<close> against the rounding of the specification: for a Number that is not
  negative and is below \<open>10\<^sup>2\<^sup>1\<close>, the digits printed are those of the hundredth nearest
  to its value.
\<close>

lemma real_value_quotient:
  "real_value (Fin m e) = of_int m * 2 ^ nat e / 2 ^ nat (- e)"
  by (cases "0 \<le> e") (simp_all add: real_value_def power_int_def field_simps)

lemma real_value_nat_quotient:
  assumes "0 \<le> m"
  shows "real_value (Fin m e) = real (nat \<bar>m\<bar> * 2 ^ nat e) / real (2 ^ nat (- e))"
  using assms by (simp add: real_value_quotient)

lemma round_quotient:
  fixes p q :: nat
  assumes "0 < q"
  shows "round (100 * (real p / real q)) = int ((2 * p * 10 ^ 2 + q) div (2 * q))"
proof -
  have "100 * (real p / real q) + 1 / 2 = real (2 * p * 10 ^ 2 + q) / real (2 * q)"
    using assms by (simp add: field_simps)
  then have "round (100 * (real p / real q)) = \<lfloor>real (2 * p * 10 ^ 2 + q) / real (2 * q)\<rfloor>"
    by (simp only: round_def)
  also have "\<dots> = int ((2 * p * 10 ^ 2 + q) div (2 * q))"
    by (rule floor_divide_of_nat_eq)
  finally show ?thesis .
qed

lemma show_nat_nonempty: "show_nat n \<noteq> []"
  by (subst show_nat.simps) simp

lemma point_before_last_two:
  "(let d = show_nat n;
        d' = (if length d \<le> 2 then replicate (2 + 1 - length d) CHR ''0'' @ d else d);
        k = length d'
    in take (k - 2) d' @ ''.'' @ drop (k - 2) d') = spec_decimal2 n"
proof -
  consider "n < 10" | "10 \<le> n" "n < 100" | "100 \<le> n"
    by linarith
  then show ?thesis
  proof cases
    case 1
    then show ?thesis
      by (simp add: spec_decimal2_def show_nat_digit digit_char_def Let_def numeral_2_eq_2)
  next
    case 2
    then have "n div 10 < 10" "n div 100 = 0"
      by simp_all
    with 2 show ?thesis
      by (simp add: spec_decimal2_def show_nat_step show_nat_digit digit_char_def Let_def)
  next
    case 3
    then have a: "10 \<le> n" "10 \<le> n div 10"
      by simp_all
    have b: "n div 10 div 10 = n div 100"
      by (simp add: div_mult2_eq[symmetric])
    have s: "show_nat n = show_nat (n div 100) @ [digit_char (n div 10 mod 10), digit_char (n mod 10)]"
      by (simp add: show_nat_step[OF a(1)] show_nat_step[OF a(2)] b)
    have l: "\<not> length (show_nat n) \<le> 2"
      using show_nat_nonempty[of "n div 100"] by (simp add: s)
    show ?thesis
      unfolding Let_def if_not_P[OF l]
      by (simp add: s spec_decimal2_def)
  qed
qed

lemma toFixed_2_rounds:
  assumes "0 \<le> m" and "real_value (Fin m e) < 10 ^ 21"
  shows "toFixed 2 (Fin m e) = spec_decimal2 (nat (spec_round2 (real_value (Fin m e))))"
proof -
  define p where "p = nat \<bar>m\<bar> * 2 ^ nat e"
  define q :: nat where "q = 2 ^ nat (- e)"
  have q: "0 < q"
    by (simp add: q_def)
  have v: "real_value (Fin m e) = real p / real q"
    using assms(1) by (simp add: p_def q_def real_value_nat_quotient)
  have "real p < 10 ^ 21 * real q"
    using assms(2) q by (simp add: v field_simps)
  then have "real p < real (10 ^ 21 * q)"
    by simp
  then have small: "\<not> 10 ^ 21 * q \<le> p"
    by (simp only: of_nat_less_iff not_le)
  have n: "nat (spec_round2 (real_value (Fin m e))) = (2 * p * 10 ^ 2 + q) div (2 * q)"
    by (simp only: spec_round2_def v round_quotient[OF q] nat_int)
  have "toFixed 2 (Fin m e) =
      (let d = show_nat ((2 * p * 10 ^ 2 + q) div (2 * q));
           d' = (if length d \<le> 2 then replicate (2 + 1 - length d) CHR ''0'' @ d else d);
           k = length d'
       in take (k - 2) d' @ ''.'' @ drop (k - 2) d')"
    using assms(1) small by (simp add: toFixed_def p_def q_def Let_def)
  also have "\<dots> = spec_decimal2 ((2 * p * 10 ^ 2 + q) div (2 * q))"
    by (rule point_before_last_two)
  finally show ?thesis
    by (simp only: n)
qed

subsection \<open>Rounding to binary64\<close>

text \<open>
  The operator \<^verbatim>\<open>*\<close> against the real product: \<open>ilog2\<close> is the binary exponent of the
  quotient, \<open>quot_half_even\<close> is within one half of the quotient, \<open>canon\<close> keeps the
  value, and so \<open>to_double\<close> returns a binary64 number than which no other is closer
  to the quotient, unless it overflows.
\<close>

lemma ndigits_bounds:
  "0 < n \<Longrightarrow> 2 ^ (ndigits 2 n - 1) \<le> n \<and> n < 2 ^ ndigits 2 n"
proof (induction n rule: less_induct)
  case (less n)
  have s: "ndigits 2 n = Suc (ndigits 2 (n div 2))"
    using less.prems by (simp add: ndigits_pos)
  show ?case
  proof (cases "n div 2 = 0")
    case True
    then have "n = 1" and "ndigits 2 n = 1"
      using less.prems by (simp_all add: div_eq_0_iff s ndigits_zero)
    then show ?thesis
      by (simp only:) simp
  next
    case False
    then have pos: "0 < n div 2" "n div 2 < n"
      using less.prems by simp_all
    let ?d = "ndigits 2 (n div 2)"
    have ih: "2 ^ (?d - 1) \<le> n div 2" "n div 2 < 2 ^ ?d"
      using less.IH[OF pos(2) pos(1)] by simp_all
    have d: "0 < ?d"
      using pos(1) by (simp add: ndigits_pos)
    then have "(2::nat) ^ ?d = 2 * 2 ^ (?d - 1)"
      by (cases ?d) simp_all
    then have "2 ^ ?d \<le> n"
      using ih(1) by simp
    moreover have "n < 2 * 2 ^ ?d"
      using ih(2) by simp
    ultimately show ?thesis
      by (simp add: s)
  qed
qed

lemma quot_half_even_nearest:
  assumes "0 < d"
  shows "\<bar>real (quot_half_even n d) - real n / real d\<bar> \<le> 1 / 2"
proof -
  define q r where "q = n div d" and "r = n mod d"
  have n: "n = q * d + r" and r: "r < d"
    using assms by (simp_all add: q_def r_def)
  have v: "real n / real d = real q + real r / real d"
    using assms by (simp add: n field_simps)
  have c: "quot_half_even n d = q \<and> 2 * r \<le> d \<or> quot_half_even n d = q + 1 \<and> d \<le> 2 * r"
    by (auto simp add: quot_half_even_def Let_def q_def[symmetric] r_def[symmetric])
  then show ?thesis
  proof
    assume a: "quot_half_even n d = q \<and> 2 * r \<le> d"
    then have "real (2 * r) \<le> real d"
      by (simp only: of_nat_le_iff)
    then have "real r / real d \<le> 1 / 2"
      using assms by (simp add: field_simps)
    then show ?thesis
      using a by (simp add: v)
  next
    assume a: "quot_half_even n d = q + 1 \<and> d \<le> 2 * r"
    then have "real d \<le> real (2 * r)"
      by (simp only: of_nat_le_iff)
    then have "1 / 2 \<le> real r / real d"
      using assms by (simp add: field_simps)
    moreover have "real r / real d < 1"
      using r assms by simp
    ultimately show ?thesis
      using a by (simp add: v abs_if)
  qed
qed

lemma real_value_canon: "real_value (canon m e) = of_int m * 2 powi e"
proof (induction m e rule: canon.induct)
  case (1 m e)
  show ?case
  proof (cases "m = 0")
    case True
    then show ?thesis
      by (simp add: canon_zero real_value_def)
  next
    case False
    show ?thesis
    proof (cases "even m")
      case True
      then have m: "m = 2 * (m div 2)"
        by simp
      have "real_value (canon m e) = of_int (m div 2) * 2 powi (e + 1)"
        using 1[OF False True] by (simp add: canon_even[OF False True])
      also have "\<dots> = of_int (2 * (m div 2)) * 2 powi e"
        by (simp add: power_int_add)
      finally show ?thesis
        using m by simp
    next
      case False
      then show ?thesis
        by (simp add: canon_odd real_value_def)
    qed
  qed
qed

lemma canon_finite: "\<exists>m' e'. canon m e = Fin m' e' \<and> (0 \<le> m \<longrightarrow> 0 \<le> m')"
proof (induction m e rule: canon.induct)
  case (1 m e)
  show ?case
  proof (cases "m = 0")
    case True
    then show ?thesis
      by (simp add: canon_zero)
  next
    case False
    show ?thesis
    proof (cases "even m")
      case True
      from 1[OF False True] show ?thesis
        by (auto simp add: canon_even[OF False True])
    next
      case False
      then show ?thesis
        by (simp add: canon_odd)
    qed
  qed
qed

lemma pw_add: "(2::real) powi (a + b) = 2 powi a * 2 powi b"
  by (simp add: power_int_add)

lemma pw_mono: "a \<le> b \<Longrightarrow> (2::real) powi a \<le> 2 powi b"
  by (rule power_int_increasing) simp_all

lemma pw_strict_mono: "a < b \<Longrightarrow> (2::real) powi a < 2 powi b"
  by (rule power_int_strict_increasing) simp_all

lemma pw_split: "(2::real) powi d = 2 ^ nat d / 2 ^ nat (- d)"
  by (cases "0 \<le> d") (simp_all add: power_int_def field_simps)

lemma scaled_le_iff:
  "(q * 2 ^ nat d \<le> p * 2 ^ nat (- d)) = (real q * 2 powi d \<le> real p)"
proof -
  have "(q * 2 ^ nat d \<le> p * 2 ^ nat (- d)) = (real (q * 2 ^ nat d) \<le> real (p * 2 ^ nat (- d)))"
    by (simp only: of_nat_le_iff)
  also have "\<dots> = (real q * 2 powi d \<le> real p)"
    by (simp add: pw_split field_simps)
  finally show ?thesis .
qed

lemma scaled_quotient:
  "0 < q \<Longrightarrow> real (p * 2 ^ nat (- k)) / real (q * 2 ^ nat k) = real p / real q / 2 powi k"
  by (simp add: pw_split field_simps)

lemma ndigits_powi:
  assumes "0 < n"
  shows "2 powi (int (ndigits 2 n) - 1) \<le> real n" and "real n < 2 powi int (ndigits 2 n)"
proof -
  obtain b where b: "ndigits 2 n = Suc b"
    using assms by (simp add: ndigits_pos)
  have "real (2 ^ b) \<le> real n" "real n < real (2 ^ Suc b)"
    using ndigits_bounds[OF assms] unfolding b by (simp_all only: of_nat_le_iff of_nat_less_iff diff_Suc_1)
  moreover have "int (Suc b) - 1 = int b"
    by simp
  ultimately show "2 powi (int (ndigits 2 n) - 1) \<le> real n" and "real n < 2 powi int (ndigits 2 n)"
    unfolding b by (simp_all only: power_int_of_nat of_nat_power of_nat_numeral)
qed

lemma ilog2_bounds:
  assumes "0 < p" and "0 < q"
  shows "2 powi ilog2 p q \<le> real p / real q" and "real p / real q < 2 powi (ilog2 p q + 1)"
proof -
  define bp bq where "bp = int (ndigits 2 p)" and "bq = int (ndigits 2 q)"
  define d where "d = bp - bq"
  have q: "0 < real q"
    using assms(2) by simp
  have p: "2 powi (bp - 1) \<le> real p" "real p < 2 powi bp"
    using ndigits_powi[OF assms(1)] by (simp_all add: bp_def)
  have q': "2 powi (bq - 1) \<le> real q" "real q < 2 powi bq"
    using ndigits_powi[OF assms(2)] by (simp_all add: bq_def)
  have "2 powi (d - 1) * real q < 2 powi (d - 1) * 2 powi bq"
    using q'(2) by simp
  also have "\<dots> = 2 powi (bp - 1)"
    by (simp add: pw_add[symmetric] d_def)
  finally have lo: "2 powi (d - 1) * real q < real p"
    using p(1) by simp
  have "real p < 2 powi (d + 1) * 2 powi (bq - 1)"
    using p(2) by (simp add: pw_add[symmetric] d_def)
  also have "\<dots> \<le> 2 powi (d + 1) * real q"
    using q'(1) by simp
  finally have hi: "real p < 2 powi (d + 1) * real q" .
  have i: "ilog2 p q = (if real q * 2 powi d \<le> real p then d else d - 1)"
    by (simp add: ilog2_def Let_def scaled_le_iff d_def bp_def bq_def)
  show "2 powi ilog2 p q \<le> real p / real q"
    using lo q by (simp add: i pos_le_divide_eq mult.commute)
  show "real p / real q < 2 powi (ilog2 p q + 1)"
    using hi q by (simp add: i pos_divide_less_eq mult.commute not_le)
qed

lemma nearest_integer:
  fixes t :: real
  assumes "\<bar>of_int M - t\<bar> \<le> 1 / 2"
  shows "\<bar>of_int M - t\<bar> \<le> \<bar>of_int N - t\<bar>"
proof (cases "N = M")
  case True
  then show ?thesis
    by simp
next
  case False
  then have "1 \<le> \<bar>N - M\<bar>"
    by simp
  then have "(1::real) \<le> \<bar>of_int N - of_int M\<bar>"
    by (metis of_int_1 of_int_abs of_int_diff of_int_le_iff)
  with assms show ?thesis
    by linarith
qed

lemma nearest_multiple:
  fixes x :: real
  assumes "\<bar>of_int M - x / 2 powi k\<bar> \<le> 1 / 2"
  shows "\<bar>of_int M * 2 powi k - x\<bar> \<le> \<bar>of_int N * 2 powi k - x\<bar>"
proof -
  have s: "0 < (2::real) powi k"
    by simp
  have e: "\<bar>of_int L * 2 powi k - x\<bar> = 2 powi k * \<bar>of_int L - x / 2 powi k\<bar>" for L
  proof -
    have "of_int L * 2 powi k - x = 2 powi k * (of_int L - x / 2 powi k)"
      by (simp add: field_simps)
    then show ?thesis
      by (simp only: abs_mult) simp
  qed
  show ?thesis
    unfolding e using nearest_integer[OF assms, of N] s by simp
qed

lemma to_double_nonneg:
  assumes "to_double False p q = Fin m e"
  shows "0 \<le> m"
proof (cases "p = 0")
  case True
  then show ?thesis
    using assms by (simp add: to_double_def)
next
  case False
  define k where "k = max (ilog2 p q) (- 1022) - 52"
  define M where "M = quot_half_even (p * 2 ^ nat (- k)) (q * 2 ^ nat k)"
  have "canon (int M) k = Fin m e"
    using assms False by (simp add: to_double_def Let_def k_def[symmetric] M_def[symmetric] split: if_splits)
  then show ?thesis
    using canon_finite[of "int M" k] by auto
qed

lemma to_double_nearest:
  assumes "0 < p" and "0 < q" and "to_double False p q = Fin m e"
  shows "nearest_binary64 (real p / real q) (real_value (Fin m e))"
proof -
  define x where "x = real p / real q"
  define E where "E = ilog2 p q"
  define k where "k = max E (- 1022) - 52"
  define M where "M = quot_half_even (p * 2 ^ nat (- k)) (q * 2 ^ nat k)"
  define y where "y = real_of_int (int M) * 2 powi k"
  have P53: "(2::real) ^ 53 = 2 powi 53" and P1024: "(2::real) ^ 1024 = 2 powi 1024"
    by (simp_all only: power_int_numeral)
  have E: "2 powi E \<le> x" "x < 2 powi (E + 1)"
    using ilog2_bounds[OF assms(1,2)] by (simp_all only: x_def E_def)
  have td: "to_double False p q =
      (if 971 < k \<or> (k = 971 \<and> 2 ^ 53 \<le> M) then PosInf else canon (int M) k)"
  proof -
    have "p \<noteq> 0"
      using assms(1) by simp
    then show ?thesis
      unfolding to_double_def Let_def M_def k_def E_def by (simp only: if_False)
  qed
  have fin: "\<not> (971 < k \<or> (k = 971 \<and> 2 ^ 53 \<le> M))" and c: "canon (int M) k = Fin m e"
    using assms(3) unfolding td by (simp_all split: if_splits)
  have yv: "real_value (Fin m e) = y"
    unfolding c[symmetric] y_def by (rule real_value_canon)
  have "\<bar>real M - real (p * 2 ^ nat (- k)) / real (q * 2 ^ nat k)\<bar> \<le> 1 / 2"
    unfolding M_def using assms(2) by (intro quot_half_even_nearest) simp
  then have near: "\<bar>real_of_int (int M) - x / 2 powi k\<bar> \<le> 1 / 2"
    unfolding scaled_quotient[OF assms(2)] x_def by simp
  have kE: "E + 1 \<le> k + 53" "- 1074 \<le> k"
    by (simp_all add: k_def)
  have "x < 2 powi (k + 53)"
    using E(2) pw_mono[OF kE(1)] by linarith
  then have "x < 2 powi 53 * 2 powi k"
    by (simp only: pw_add mult.commute)
  then have t: "x / 2 powi k < 2 powi 53"
    by (simp add: pos_divide_less_eq)
  have Mle: "M \<le> 2 ^ 53"
  proof (rule ccontr)
    assume "\<not> M \<le> 2 ^ 53"
    then have "2 ^ 53 + 1 \<le> M"
      by simp
    then have "real (2 ^ 53 + 1) \<le> real M"
      by (simp only: of_nat_le_iff)
    then have "2 powi 53 + 1 \<le> real M"
      by (simp only: of_nat_add of_nat_power of_nat_numeral of_nat_1 P53)
    with near t show False
      by simp
  qed
  have rep: "binary64 y"
  proof (cases "M = 2 ^ 53")
    case True
    have k: "k + 53 < 1024"
      using fin True by simp
    have "real M = 2 powi 53"
      unfolding True by (simp only: of_nat_power of_nat_numeral P53)
    then have y: "y = of_int 1 * 2 powi (k + 53)"
      unfolding y_def by (simp only: of_int_of_nat_eq pw_add of_int_1 mult_1 mult.commute)
    have "\<bar>y\<bar> < 2 powi 1024"
      using pw_strict_mono[OF k] by (simp add: y)
    then have "y = of_int 1 * 2 powi (k + 53) \<and> \<bar>1::int\<bar> < 2 ^ 53 \<and> - 1074 \<le> k + 53 \<and> \<bar>y\<bar> < 2 ^ 1024"
      using y kE(2) by (simp add: P1024)
    then show ?thesis
      unfolding binary64_def by blast
  next
    case False
    then have lt: "M < 2 ^ 53"
      using Mle by simp
    then have "real M < real (2 ^ 53)"
      by (simp only: of_nat_less_iff)
    then have r: "real M < 2 powi 53"
      by (simp only: of_nat_power of_nat_numeral P53)
    have k: "k \<le> 971"
      using fin by simp
    have "real M * 2 powi k < 2 powi 53 * 2 powi 971"
      using r pw_mono[OF k] by (intro mult_less_le_imp_less) simp_all
    also have "\<dots> = 2 powi 1024"
    proof -
      have "(53::int) + 971 = 1024"
        by simp
      then show ?thesis
        by (simp only: pw_add[symmetric])
    qed
    finally have "\<bar>y\<bar> < 2 ^ 1024"
      by (simp add: y_def P1024)
    moreover have "\<bar>int M\<bar> < 2 ^ 53"
      using lt by simp
    ultimately have "y = of_int (int M) * 2 powi k \<and> \<bar>int M\<bar> < 2 ^ 53 \<and> - 1074 \<le> k \<and> \<bar>y\<bar> < 2 ^ 1024"
      using kE(2) by (simp add: y_def)
    then show ?thesis
      unfolding binary64_def by blast
  qed
  have closest: "\<bar>y - x\<bar> \<le> \<bar>z - x\<bar>" if "binary64 z" for z
  proof -
    from that obtain m' e' where z: "z = of_int m' * 2 powi e'" and m': "\<bar>m'\<bar> < 2 ^ 53"
      and e': "- 1074 \<le> e'"
      unfolding binary64_def by blast
    show ?thesis
    proof (cases "k \<le> e'")
      case True
      then have "(2::real) powi (e' - k) = of_int (2 ^ nat (e' - k))"
        by (simp add: power_int_def)
      moreover have "(2::real) powi e' = 2 powi (e' - k) * 2 powi k"
        by (simp add: pw_add[symmetric])
      ultimately have "z = of_int (m' * 2 ^ nat (e' - k)) * 2 powi k"
        by (simp add: z)
      then show ?thesis
        unfolding y_def using nearest_multiple[OF near, of "m' * 2 ^ nat (e' - k)"] by simp
    next
      case False
      then have kk: "k = E - 52" and ek: "e' \<le> k - 1"
        using e' by (simp_all add: k_def)
      have "real_of_int \<bar>m'\<bar> < real_of_int (2 ^ 53)"
        using m' by (simp only: of_int_less_iff)
      then have "real_of_int \<bar>m'\<bar> < 2 powi 53"
        by (simp add: P53)
      then have "real_of_int \<bar>m'\<bar> * 2 powi e' < 2 powi 53 * 2 powi (k - 1)"
        using pw_mono[OF ek] by (intro mult_less_le_imp_less) simp_all
      also have "\<dots> = 2 powi E"
      proof -
        have "53 + (k - 1) = E"
          by (simp add: kk)
        then show ?thesis
          by (simp only: pw_add[symmetric])
      qed
      finally have "\<bar>z\<bar> < 2 powi E"
        by (simp add: z abs_mult)
      then have zE: "z < 2 powi E"
        by simp
      have "52 + k = E"
        by (simp add: kk)
      then have "(2::real) powi E = 2 powi 52 * 2 powi k"
        by (simp only: pw_add[symmetric])
      moreover have "(2::real) powi 52 = of_int (2 ^ 52)"
        by simp
      ultimately have "(2::real) powi E = of_int (2 ^ 52) * 2 powi k"
        by (simp only:)
      then have "\<bar>y - x\<bar> \<le> \<bar>2 powi E - x\<bar>"
        unfolding y_def using nearest_multiple[OF near, of "2 ^ 52"] by simp
      with E(1) zE show ?thesis
        by simp
    qed
  qed
  show ?thesis
    unfolding nearest_binary64_def yv x_def[symmetric] using rep closest by blast
qed

lemma to_double_finite:
  assumes "0 < p" and "0 < q" and "real p / real q < 2 ^ 1023"
  shows "\<exists>m e. to_double False p q = Fin m e"
proof -
  define E where "E = ilog2 p q"
  define k where "k = max E (- 1022) - 52"
  define M where "M = quot_half_even (p * 2 ^ nat (- k)) (q * 2 ^ nat k)"
  have "2 powi E \<le> real p / real q"
    using ilog2_bounds(1)[OF assms(1,2)] by (simp only: E_def)
  also have "real p / real q < 2 powi 1023"
    using assms(3) by (simp only: power_int_numeral)
  finally have "\<not> 1023 \<le> E"
    using pw_mono[of 1023 E] by linarith
  then have k: "k < 971"
    by (simp add: k_def)
  have "p \<noteq> 0"
    using assms(1) by simp
  then have "to_double False p q =
      (if 971 < k \<or> (k = 971 \<and> 2 ^ 53 \<le> M) then PosInf else canon (int M) k)"
    unfolding to_double_def Let_def M_def k_def E_def by (simp only: if_False)
  then have "to_double False p q = canon (int M) k"
    using k by simp
  then show ?thesis
    using canon_finite[of "int M" k] by auto
qed

lemma product_quotient:
  assumes "0 < m1" and "0 < m2"
  shows "real (nat \<bar>m1 * m2\<bar> * 2 ^ nat (e1 + e2)) / real (2 ^ nat (- (e1 + e2)))
       = real_value (Fin m1 e1) * real_value (Fin m2 e2)"
proof -
  have "0 \<le> m1 * m2"
    using assms by simp
  then have "real (nat \<bar>m1 * m2\<bar> * 2 ^ nat (e1 + e2)) / real (2 ^ nat (- (e1 + e2)))
      = real_value (Fin (m1 * m2) (e1 + e2))"
    by (rule real_value_nat_quotient[symmetric])
  also have "\<dots> = real_value (Fin m1 e1) * real_value (Fin m2 e2)"
    by (simp add: real_value_def pw_add)
  finally show ?thesis .
qed

lemma fmul_to_double:
  assumes "0 < m1" and "0 < m2"
  shows "fmul (Fin m1 e1) (Fin m2 e2)
       = to_double False (nat \<bar>m1 * m2\<bar> * 2 ^ nat (e1 + e2)) (2 ^ nat (- (e1 + e2)))"
    and "0 < nat \<bar>m1 * m2\<bar> * 2 ^ nat (e1 + e2)"
proof -
  have "0 < m1 * m2"
    using assms by simp
  then show "fmul (Fin m1 e1) (Fin m2 e2)
       = to_double False (nat \<bar>m1 * m2\<bar> * 2 ^ nat (e1 + e2)) (2 ^ nat (- (e1 + e2)))"
    and "0 < nat \<bar>m1 * m2\<bar> * 2 ^ nat (e1 + e2)"
    by (simp_all add: round_scaled_def)
qed

lemma fmul_nonneg:
  assumes "gt_zero a" and "gt_zero r" and "fmul a r = Fin m e"
  shows "0 \<le> m"
proof (cases a)
  case (Fin m1 e1)
  show ?thesis
  proof (cases r)
    case r: (Fin m2 e2)
    have "0 < m1 * m2"
      using assms(1,2) by (simp add: Fin r gt_zero_def)
    then have "to_double False (nat \<bar>m1 * m2\<bar> * 2 ^ nat (e1 + e2)) (2 ^ nat (- (e1 + e2))) = Fin m e"
      using assms(3) by (simp add: Fin r round_scaled_def)
    then show ?thesis
      by (rule to_double_nonneg)
  qed (use assms in \<open>simp_all add: Fin gt_zero_def split: if_splits\<close>)
qed (use assms in \<open>simp_all add: gt_zero_def split: if_splits\<close>)

lemma fmul_nearest:
  assumes "0 < m1" and "0 < m2" and "fmul (Fin m1 e1) (Fin m2 e2) = Fin m e"
  shows "nearest_binary64 (real_value (Fin m1 e1) * real_value (Fin m2 e2)) (real_value (Fin m e))"
proof -
  note f = fmul_to_double[OF assms(1,2), of e1 e2]
  have q: "0 < (2::nat) ^ nat (- (e1 + e2))"
    by simp
  show ?thesis
    using to_double_nearest[OF f(2) q assms(3)[unfolded f(1)]]
    unfolding product_quotient[OF assms(1,2)] .
qed

lemma fmul_finite:
  assumes "0 < m1" and "0 < m2"
    and "real_value (Fin m1 e1) * real_value (Fin m2 e2) < 2 ^ 1023"
  shows "\<exists>m e. fmul (Fin m1 e1) (Fin m2 e2) = Fin m e"
proof -
  note f = fmul_to_double[OF assms(1,2), of e1 e2]
  have q: "0 < (2::nat) ^ nat (- (e1 + e2))"
    by simp
  show ?thesis
    unfolding f(1)
    using assms(3) unfolding product_quotient[OF assms(1,2), symmetric]
    by (rule to_double_finite[OF f(2) q])
qed

lemma nearest_binary64_exact:
  assumes "binary64 x" and "nearest_binary64 x y"
  shows "y = x"
proof -
  have "\<bar>y - x\<bar> \<le> \<bar>x - x\<bar>"
    using assms unfolding nearest_binary64_def by blast
  then show ?thesis
    by simp
qed

subsection \<open>The capacity of the history\<close>

lemma capacity_addToHistory:
  "length (stored s) \<le> 50 \<Longrightarrow> length (stored (addToHistory c f t amt conv s)) \<le> 50"
  by (simp add: stored_addToHistory)

lemma capacity_performConversion:
  "length (stored s) \<le> 50 \<Longrightarrow> length (stored (performConversion c s)) \<le> 50"
  by (auto simp: performConversion_def validateInput_def performConversion_try_def Let_def
        stored_frame capacity_addToHistory split: sum.splits option.splits)

lemma capacity_dispatch:
  assumes "length (stored s) \<le> 50"
  shows "length (stored (dispatch c ev s)) \<le> 50"
proof (cases ev)
  case (Input v)
  have "stored (s\<lparr>amount_value := v, amountError_show := False\<rparr>) = stored s"
    by (simp add: stored_def)
  with assms Input show ?thesis
    by (simp add: dispatch_def convertIfValid_def capacity_performConversion)
next
  case KeypressEnter
  with assms show ?thesis
    by (simp add: dispatch_def capacity_performConversion)
next
  case (ChangeFrom v)
  have "stored (s\<lparr>fromCurrency_value := v\<rparr>) = stored s"
    by (simp add: stored_def)
  with assms ChangeFrom show ?thesis
    by (simp add: dispatch_def convertIfValid_def capacity_performConversion)
next
  case (ChangeTo v)
  have "stored (s\<lparr>toCurrency_value := v\<rparr>) = stored s"
    by (simp add: stored_def)
  with assms ChangeTo show ?thesis
    by (simp add: dispatch_def convertIfValid_def capacity_performConversion)
next
  case ClickSwap
  have "stored (fetchRatesOnce (s\<lparr>fromCurrency_value := toCurrency_value s,
                                   toCurrency_value := fromCurrency_value s\<rparr>)) = stored s"
    by (simp add: stored_def fetchRatesOnce_def)
  with assms ClickSwap show ?thesis
    by (simp add: dispatch_def swapCurrencies_def Let_def capacity_performConversion)
next
  case ClickClear
  with assms show ?thesis
    by (simp add: dispatch_def stored_frame)
next
  case ClickToggle
  have "stored (toggleAutoUpdateMode s) = stored s"
    by (simp add: toggleAutoUpdateMode_def Let_def stored_frame) (simp add: stored_def)
  with assms ClickToggle show ?thesis
    by (simp add: dispatch_def)
next
  case (ClickDeleteAll confirmed)
  with assms show ?thesis
    by (simp add: dispatch_def deleteAllHistory_def stored_loadHistory) (simp add: stored_def)
next
  case (ClickDelete i)
  have "length (filter (\<lambda>entry. entry_id entry \<noteq> i) (stored s)) \<le> 50"
    using order_trans[OF length_filter_le assms] .
  with ClickDelete show ?thesis
    by (simp add: dispatch_def deleteHistoryItem_def Let_def stored_loadHistory stored_set)
next
  case (TimerFires h)
  have "stored (snd (setTimer DotOff (fetchRatesOnce (s\<lparr>statusDot_updating := True\<rparr>)))) = stored s"
    by (simp add: stored_def setTimer_def fetchRatesOnce_def)
  then have "length (stored (tick c s)) \<le> 50"
    using assms by (simp add: tick_def Let_def capacity_performConversion)
  moreover have "stored ((clearInterval h s)\<lparr>statusDot_updating := False\<rparr>) = stored s"
    by (simp add: stored_def clearInterval_def)
  ultimately show ?thesis
    using assms TimerFires
    by (simp add: dispatch_def stored_frame split: option.splits timer.splits)
next
  case (FetchSettles k r)
  have "stored (s\<lparr>inflight := take k (inflight s) @ drop (Suc k) (inflight s)\<rparr>) = stored s"
    by (simp add: stored_def)
  with assms FetchSettles show ?thesis
    by (simp add: dispatch_def stored_frame)
qed

section \<open>Conversion\<close>

text \<open>
  Claim C1, as the code has it. Whenever the amount field parses to a positive Number
  \<open>a\<close> and the cache holds a positive rate \<open>r\<close> for the target currency,
  \<^verbatim>\<open>performConversion\<close> displays \<^verbatim>\<open>(a * r).toFixed(2)\<close>, and the rounding is done twice.
  For finite \<open>a\<close> and \<open>r\<close> whose real product is below \<open>2\<close> to the \<open>1023\<close>, the Number
  \<^verbatim>\<open>a * r\<close> is finite and is a binary64 number nearest to the real product; and when
  that Number is below \<open>10\<^sup>2\<^sup>1\<close>, what is displayed is the numeral, with two decimals, of
  the hundredth nearest to the Number (the larger one on a tie). So the page displays
  the real product rounded to two decimals, as the specification has it, whenever the
  real product is itself a binary64 number below \<open>10\<^sup>2\<^sup>1\<close>. The rate line
  \<^verbatim>\<open>1 base = rate target\<close> is displayed with the amount; the most recent stored history
  entry then holds the two currencies, the amount and the converted amount; no error is
  shown; and \<^verbatim>\<open>ratesCache\<close> is left as it was.
\<close>

theorem performConversion_converts:
  assumes "parseFloat (amount_value s) = a" and "gt_zero a"
    and "ratesCache s = Rates rs" and "map_of rs (toCurrency_value s) = Some r"
    and "gt_zero r"
  shows "resultAmount_textContent (performConversion c s) = toFixed 2 (fmul a r)
       \<and> (\<forall>ma ea mr er.
             a = Fin ma ea \<and> r = Fin mr er \<and> real_value a * real_value r < 2 ^ 1023 \<longrightarrow>
             (\<exists>m e. fmul a r = Fin m e
                \<and> nearest_binary64 (real_value a * real_value r) (real_value (Fin m e))
                \<and> (real_value (Fin m e) < 10 ^ 21 \<longrightarrow>
                     resultAmount_textContent (performConversion c s)
                       = spec_decimal2 (nat (spec_round2 (real_value (Fin m e)))))))
       \<and> (\<forall>ma ea mr er.
             a = Fin ma ea \<and> r = Fin mr er \<and> binary64 (real_value a * real_value r)
               \<and> real_value a * real_value r < 10 ^ 21 \<longrightarrow>
             resultAmount_textContent (performConversion c s)
               = spec_decimal2 (nat (spec_round2 (real_value a * real_value r))))
       \<and> exchangeRate_textContent (performConversion c s) =
           ''1 '' @ fromCurrency_value s @ '' = '' @ toFixed 4 r @ '' '' @ toCurrency_value s
       \<and> (case stored (performConversion c s) of
             [] \<Rightarrow> False
           | x # rest \<Rightarrow>
               fromCurr x = fromCurrency_value s \<and> toCurr x = toCurrency_value s
               \<and> amount x = stringify_parse a \<and> converted x = toFixed 2 (fmul a r))
       \<and> displayed (performConversion c s) = displayed s
       \<and> ratesCache (performConversion c s) = ratesCache s"
proof -
  have pos: "gt_zero (parseFloat (amount_value s))"
    using assms(1,2) by simp
  note shown = performConversion_displays[OF pos assms(3,4) gt_zero_truthy[OF assms(5)], of c]
  have code: "resultAmount_textContent (performConversion c s) = toFixed 2 (fmul a r)"
    using shown(1) unfolding assms(1) .
  have rounded: "resultAmount_textContent (performConversion c s)
      = spec_decimal2 (nat (spec_round2 (real_value (Fin m e))))"
    if "fmul a r = Fin m e" and "real_value (Fin m e) < 10 ^ 21" for m e
  proof -
    have "0 \<le> m"
      using assms(2,5) that(1) by (rule fmul_nonneg)
    then show ?thesis
      unfolding code that(1) using that(2) by (rule toFixed_2_rounds)
  qed
  have product: "\<exists>m e. fmul a r = Fin m e
      \<and> nearest_binary64 (real_value a * real_value r) (real_value (Fin m e))
      \<and> (real_value (Fin m e) < 10 ^ 21 \<longrightarrow>
           resultAmount_textContent (performConversion c s)
             = spec_decimal2 (nat (spec_round2 (real_value (Fin m e)))))"
    if fa: "a = Fin ma ea" and fr: "r = Fin mr er" and below: "real_value a * real_value r < 2 ^ 1023"
    for ma ea mr er
  proof -
    have m: "0 < ma" "0 < mr"
      using assms(2,5) fa fr by (simp_all add: gt_zero_def)
    have "\<exists>m e. fmul (Fin ma ea) (Fin mr er) = Fin m e"
      using below unfolding fa fr by (rule fmul_finite[OF m])
    then obtain m e where y: "fmul a r = Fin m e"
      unfolding fa fr by blast
    have "nearest_binary64 (real_value a * real_value r) (real_value (Fin m e))"
      using fmul_nearest[OF m y[unfolded fa fr]] unfolding fa fr .
    then show ?thesis
      using y rounded[OF y] by blast
  qed
  have exact: "resultAmount_textContent (performConversion c s)
      = spec_decimal2 (nat (spec_round2 (real_value a * real_value r)))"
    if fa: "a = Fin ma ea" and fr: "r = Fin mr er" and b: "binary64 (real_value a * real_value r)"
      and small: "real_value a * real_value r < 10 ^ 21"
    for ma ea mr er
  proof -
    have "(10::real) ^ 21 \<le> 2 ^ 70"
      by simp
    also have "(2::real) ^ 70 \<le> 2 ^ 1023"
      by (rule power_increasing) simp_all
    finally have "real_value a * real_value r < 2 ^ 1023"
      using small by simp
    from product[OF fa fr this] obtain m e where y: "fmul a r = Fin m e"
      and n: "nearest_binary64 (real_value a * real_value r) (real_value (Fin m e))"
      by blast
    have "real_value (Fin m e) = real_value a * real_value r"
      using b n by (rule nearest_binary64_exact)
    then show ?thesis
      using rounded[OF y] small by simp
  qed
  have rest: "exchangeRate_textContent (performConversion c s) =
        ''1 '' @ fromCurrency_value s @ '' = '' @ toFixed 4 r @ '' '' @ toCurrency_value s"
    "case stored (performConversion c s) of
       [] \<Rightarrow> False
     | x # rest \<Rightarrow>
         fromCurr x = fromCurrency_value s \<and> toCurr x = toCurrency_value s
         \<and> amount x = stringify_parse a \<and> converted x = toFixed 2 (fmul a r)"
    "displayed (performConversion c s) = displayed s"
    "ratesCache (performConversion c s) = ratesCache s"
    using shown(2,4,5) ratesCache_performConversion[of c s] unfolding assms(1) by simp_all
  show ?thesis
    using code product exact rest by blast
qed

theorem performConversion_converts_witness:
  "parseFloat (amount_value (usd_page [(''EUR'', rate_0_92)] ''100'')) = Fin 25 2
   \<and> gt_zero (Fin 25 2)
   \<and> ratesCache (usd_page [(''EUR'', rate_0_92)] ''100'') = Rates [(''EUR'', rate_0_92)]
   \<and> map_of [(''EUR'', rate_0_92)] (toCurrency_value (usd_page [(''EUR'', rate_0_92)] ''100''))
       = Some rate_0_92
   \<and> gt_zero rate_0_92
   \<and> real_value (Fin 25 2) * real_value rate_0_92 = 92 + 9 / 2 ^ 51
   \<and> real_value (Fin 25 2) * real_value rate_0_92 < 2 ^ 1023
   \<and> fmul (Fin 25 2) rate_0_92 = Fin 23 2
   \<and> real_value (Fin 23 2) = 92
   \<and> nearest_binary64 (real_value (Fin 25 2) * real_value rate_0_92) (real_value (Fin 23 2))
   \<and> real_value (Fin 23 2) < 10 ^ 21
   \<and> spec_round2 (real_value (Fin 23 2)) = 9200
   \<and> spec_decimal2 9200 = ''92.00''
   \<and> resultAmount_textContent (performConversion clock0 (usd_page [(''EUR'', rate_0_92)] ''100''))
       = ''92.00''
   \<and> exchangeRate_textContent (performConversion clock0 (usd_page [(''EUR'', rate_0_92)] ''100''))
       = ''1 USD = 0.9200 EUR''
   \<and> ratesCache (performConversion clock0 (usd_page [(''EUR'', rate_0_92)] ''100''))
       = Rates [(''EUR'', rate_0_92)]
   \<and> parseFloat (amount_value half_page) = Fin 25 2
   \<and> ratesCache half_page = Rates [(''EUR'', Fin 1 (- 1))]
   \<and> map_of [(''EUR'', Fin 1 (- 1))] (toCurrency_value half_page) = Some (Fin 1 (- 1))
   \<and> gt_zero (Fin 1 (- 1))
   \<and> real_value (Fin 25 2) * real_value (Fin 1 (- 1)) = 50
   \<and> binary64 (real_value (Fin 25 2) * real_value (Fin 1 (- 1)))
   \<and> real_value (Fin 25 2) * real_value (Fin 1 (- 1)) < 10 ^ 21
   \<and> spec_round2 (real_value (Fin 25 2) * real_value (Fin 1 (- 1))) = 5000
   \<and> spec_decimal2 5000 = ''50.00''
   \<and> resultAmount_textContent (performConversion clock0 half_page) = ''50.00''"
proof -
  let ?s = "usd_page [(''EUR'', rate_0_92)] ''100''"
  have a: "parseFloat (amount_value ?s) = Fin 25 2"
    by (simp add: app_eval host_eval)
  have p: "gt_zero (Fin 25 2)" "gt_zero rate_0_92"
    by (simp_all add: gt_zero_def rate_0_92_def)
  have r: "ratesCache ?s = Rates [(''EUR'', rate_0_92)]"
    by (simp add: app_eval)
  have t: "map_of [(''EUR'', rate_0_92)] (toCurrency_value ?s) = Some rate_0_92"
    by (simp add: app_eval)
  have f: "fromCurrency_value ?s = ''USD''" "toCurrency_value ?s = ''EUR''"
    by (simp_all add: app_eval)
  have x: "real_value (Fin 25 2) * real_value rate_0_92 = 92 + 9 / 2 ^ 51"
    by (simp add: rate_0_92_def real_value_quotient)
  have below: "real_value (Fin 25 2) * real_value rate_0_92 < 2 ^ 1023"
  proof -
    have "real_value (Fin 25 2) * real_value rate_0_92 \<le> 2 ^ 7"
      unfolding x by simp
    also have "(2::real) ^ 7 < 2 ^ 1023"
      by (rule power_strict_increasing) simp_all
    finally show ?thesis .
  qed
  have y: "fmul (Fin 25 2) rate_0_92 = Fin 23 2"
    by (simp add: rate_0_92_def host_eval)
  have v: "real_value (Fin 23 2) = 92"
    by (simp add: real_value_quotient)
  have small: "real_value (Fin 23 2) < 10 ^ 21"
    by (simp add: v)
  have n: "spec_round2 (real_value (Fin 23 2)) = 9200"
    by (simp add: v spec_round2_def)
  have d: "spec_decimal2 9200 = ''92.00''"
    by (simp add: spec_decimal2_def host_eval)
  have w: "toFixed 4 rate_0_92 = ''0.9200''"
    by (simp add: rate_0_92_def host_eval)
  note conv = performConversion_converts[OF a p(1) r t p(2), of clock0]
  have "\<exists>m e. fmul (Fin 25 2) rate_0_92 = Fin m e
      \<and> nearest_binary64 (real_value (Fin 25 2) * real_value rate_0_92) (real_value (Fin m e))
      \<and> (real_value (Fin m e) < 10 ^ 21 \<longrightarrow>
           resultAmount_textContent (performConversion clock0 ?s)
             = spec_decimal2 (nat (spec_round2 (real_value (Fin m e)))))"
    using conv[THEN conjunct2, THEN conjunct1, rule_format, of 25 2 8286623314361713 "- 53"] below
    by (simp only: rate_0_92_def simp_thms)
  then have nearest: "nearest_binary64 (real_value (Fin 25 2) * real_value rate_0_92) (real_value (Fin 23 2))"
    and "resultAmount_textContent (performConversion clock0 ?s)
      = spec_decimal2 (nat (spec_round2 (real_value (Fin 23 2))))"
    using small unfolding y by auto
  then have shown: "resultAmount_textContent (performConversion clock0 ?s) = ''92.00''"
    by (simp only: n d nat_numeral)
  have rate: "exchangeRate_textContent (performConversion clock0 ?s) = ''1 USD = 0.9200 EUR''"
    using conv by (simp add: f w)
  have cache: "ratesCache (performConversion clock0 ?s) = Rates [(''EUR'', rate_0_92)]"
    using conv by (simp add: r)
  have a': "parseFloat (amount_value half_page) = Fin 25 2"
    by (simp add: app_eval host_eval)
  have r': "ratesCache half_page = Rates [(''EUR'', Fin 1 (- 1))]"
    by (simp add: app_eval)
  have t': "map_of [(''EUR'', Fin 1 (- 1))] (toCurrency_value half_page) = Some (Fin 1 (- 1))"
    by (simp add: app_eval)
  have p': "gt_zero (Fin 1 (- 1))"
    by (simp add: gt_zero_def)
  have x': "real_value (Fin 25 2) * real_value (Fin 1 (- 1)) = 50"
    by (simp add: real_value_quotient)
  have "(50::real) = of_int 25 * 2 powi 1 \<and> \<bar>25::int\<bar> < 2 ^ 53 \<and> (- 1074::int) \<le> 1
      \<and> \<bar>50::real\<bar> < 2 ^ 1024"
  proof -
    have "(50::real) \<le> 2 ^ 6"
      by simp
    also have "(2::real) ^ 6 < 2 ^ 1024"
      by (rule power_strict_increasing) simp_all
    finally show ?thesis
      by simp
  qed
  then have b': "binary64 (real_value (Fin 25 2) * real_value (Fin 1 (- 1)))"
    unfolding x' binary64_def by blast
  have small': "real_value (Fin 25 2) * real_value (Fin 1 (- 1)) < 10 ^ 21"
    by (simp add: x')
  have n': "spec_round2 (real_value (Fin 25 2) * real_value (Fin 1 (- 1))) = 5000"
    by (simp add: x' spec_round2_def)
  have d': "spec_decimal2 5000 = ''50.00''"
    by (simp add: spec_decimal2_def host_eval)
  have "resultAmount_textContent (performConversion clock0 half_page)
      = spec_decimal2 (nat (spec_round2 (real_value (Fin 25 2) * real_value (Fin 1 (- 1)))))"
    using performConversion_converts[OF a' p(1) r' t' p', of clock0,
        THEN conjunct2, THEN conjunct2, THEN conjunct1, rule_format, of 25 2 1 "- 1"] b' small'
    by (simp only: simp_thms)
  then have shown': "resultAmount_textContent (performConversion clock0 half_page) = ''50.00''"
    by (simp only: n' d' nat_numeral)
  show ?thesis
    by (intro conjI; fact)
qed

text \<open>
  The claim C1 as it is stated, with the product of the real numbers, fails: with 3 in
  the amount field and the rate \<^verbatim>\<open>0.041666666666666664\<close> for the euro, the real product
  is below one eighth and rounds to 0.12, and the page displays 0.13, because the
  Number \<^verbatim>\<open>3 * 0.041666666666666664\<close> is one eighth.
\<close>

theorem exact_product_rounds_down_counterexample:
  "parseFloat (amount_value one_24th_page) = Fin 3 0
   \<and> ratesCache one_24th_page = Rates [(''EUR'', one_24th)]
   \<and> toCurrency_value one_24th_page = ''EUR''
   \<and> real_value (Fin 3 0) * real_value one_24th < 1 / 8
   \<and> spec_round2 (real_value (Fin 3 0) * real_value one_24th) = 12
   \<and> spec_decimal2 12 = ''0.12''
   \<and> fmul (Fin 3 0) one_24th = Fin 1 (- 3)
   \<and> resultAmount_textContent (performConversion clock0 one_24th_page) = ''0.13''"
proof -
  have a: "parseFloat (amount_value one_24th_page) = Fin 3 0"
    by (simp add: app_eval host_eval)
  have r: "ratesCache one_24th_page = Rates [(''EUR'', one_24th)]"
    "toCurrency_value one_24th_page = ''EUR''"
    by (simp_all add: app_eval)
  have x: "real_value (Fin 3 0) * real_value one_24th = 18014398509481983 / 2 ^ 57"
    by (simp add: one_24th_def real_value_quotient)
  have below: "real_value (Fin 3 0) * real_value one_24th < 1 / 8"
    unfolding x by simp
  have n: "spec_round2 (real_value (Fin 3 0) * real_value one_24th) = 12"
    unfolding x spec_round2_def by (rule round_unique) simp_all
  have d: "spec_decimal2 12 = ''0.12''"
    by (simp add: spec_decimal2_def host_eval)
  have y: "fmul (Fin 3 0) one_24th = Fin 1 (- 3)"
    by (simp add: one_24th_def host_eval)
  have shown: "resultAmount_textContent (performConversion clock0 one_24th_page) = ''0.13''"
    by (simp add: app_eval host_eval)
  show ?thesis
    by (intro conjI; fact)
qed

text \<open>
  Claim C10. Whether a rate is available is decided by the truth value of what the
  lookup returns, not by the key being there: with a valid amount and the target
  currency present in the cache with the value \<open>r\<close>, \<^verbatim>\<open>performConversion\<close> shows no
  error when \<open>r\<close> is truthy, and when \<open>r\<close> is falsy (zero or NaN) it takes the error
  path: it shows the conversion failure message once and neither displays a converted
  amount nor stores a history entry.
\<close>

theorem falsy_rate_is_unavailable:
  assumes "gt_zero (parseFloat (amount_value s))"
    and "ratesCache s = Rates rs" and "map_of rs (toCurrency_value s) = Some r"
  shows "displayed (performConversion c s) =
           displayed s @ (if truthy r then [] else [''Conversion failed. Please try again.''])
       \<and> (\<not> truthy r \<longrightarrow>
            performConversion c s = showError ''Conversion failed. Please try again.'' s
          \<and> resultAmount_textContent (performConversion c s) = resultAmount_textContent s
          \<and> conversionHistory (performConversion c s) = conversionHistory s)"
proof (cases "truthy r")
  case True
  then show ?thesis
    by (simp add: performConversion_success[OF assms True] addToHistory_frame displayResult_def)
next
  case False
  then have "case lookup (ratesCache s) (toCurrency_value s) of
               Inl error \<Rightarrow> True | Inr None \<Rightarrow> True | Inr (Some rate) \<Rightarrow> \<not> truthy rate"
    using assms(2,3) by (simp add: lookup_def)
  then have "performConversion c s = showError ''Conversion failed. Please try again.'' s"
    by (rule performConversion_unavailable[OF assms(1)])
  with False show ?thesis
    by (simp add: displayed_showError showError_frame)
qed

theorem falsy_rate_is_unavailable_witness:
  "gt_zero (parseFloat (amount_value (usd_page [(''EUR'', Fin 0 0)] ''100'')))
   \<and> ratesCache (usd_page [(''EUR'', Fin 0 0)] ''100'') = Rates [(''EUR'', Fin 0 0)]
   \<and> map_of [(''EUR'', Fin 0 0)] (toCurrency_value (usd_page [(''EUR'', Fin 0 0)] ''100''))
       = Some (Fin 0 0)
   \<and> \<not> truthy (Fin 0 0)
   \<and> displayed (performConversion clock0 (usd_page [(''EUR'', Fin 0 0)] ''100''))
       = [''Conversion failed. Please try again.'']
   \<and> resultAmount_textContent (performConversion clock0 (usd_page [(''EUR'', Fin 0 0)] ''100''))
       = []"
proof -
  let ?s = "usd_page [(''EUR'', Fin 0 0)] ''100''"
  have a: "gt_zero (parseFloat (amount_value ?s))"
    by (simp add: app_eval host_eval)
  have r: "ratesCache ?s = Rates [(''EUR'', Fin 0 0)]"
    by (simp add: app_eval)
  have t: "map_of [(''EUR'', Fin 0 0)] (toCurrency_value ?s) = Some (Fin 0 0)"
    by (simp add: app_eval)
  have z: "\<not> truthy (Fin 0 0)"
    by (simp add: truthy_def is_zero_def)
  have d: "displayed ?s = []" "resultAmount_textContent ?s = []"
    by (simp_all add: app_eval)
  show ?thesis
    using falsy_rate_is_unavailable[OF a r t, of clock0] a r t z
    by (simp add: d displayed_showError showError_frame)
qed

section \<open>The order of the validation checks\<close>



section \<open>The history\<close>

text \<open>
  Claim C7. Appending a conversion whose base currency, target currency, amount and
  converted amount are those of the most recent stored entry does nothing at all, and
  any other conversion is put in front of the list (which is then cut to 50 entries).
  So appending the same conversion twice in a row is the same as appending it once.
  The amount is a real number here, \<open>Fin m e\<close>, as in the data model of the
  specification.
\<close>

theorem addToHistory_skips_repetition:
  "addToHistory c f t (Fin m e) conv s =
     (if (case stored s of [] \<Rightarrow> False
          | x # rest \<Rightarrow> fromCurr x = f \<and> toCurr x = t \<and> amount x = Number m e \<and> converted x = conv)
      then s
      else loadHistory
             (s\<lparr>conversionHistory :=
                  Some (take 50 (\<lparr>entry_id = now c, fromCurr = f, toCurr = t, amount = Number m e,
                                  converted = conv, timestamp = localeString c\<rparr> # stored s))\<rparr>))
   \<and> addToHistory c' f t (Fin m e) conv (addToHistory c f t (Fin m e) conv s)
       = addToHistory c f t (Fin m e) conv s"
proof
  show "addToHistory c f t (Fin m e) conv s =
     (if (case stored s of [] \<Rightarrow> False
          | x # rest \<Rightarrow> fromCurr x = f \<and> toCurr x = t \<and> amount x = Number m e \<and> converted x = conv)
      then s
      else loadHistory
             (s\<lparr>conversionHistory :=
                  Some (take 50 (\<lparr>entry_id = now c, fromCurr = f, toCurr = t, amount = Number m e,
                                  converted = conv, timestamp = localeString c\<rparr> # stored s))\<rparr>))"
    by (simp add: addToHistory_def Let_def same_as_last_fin[symmetric] stringify_parse_def)
  show "addToHistory c' f t (Fin m e) conv (addToHistory c f t (Fin m e) conv s)
       = addToHistory c f t (Fin m e) conv s"
    using same_as_last_after[of c f t m e conv s]
    by (simp add: addToHistory_def[of c'] Let_def)
qed

theorem addToHistory_skips_repetition_witness:
  "stored half_page = []
   \<and> stored (addToHistory clock0 ''USD'' ''EUR'' (Fin 25 2) ''50.00'' half_page)
       = [\<lparr>entry_id = now clock0, fromCurr = ''USD'', toCurr = ''EUR'', amount = Number 25 2,
           converted = ''50.00'', timestamp = localeString clock0\<rparr>]
   \<and> stored (addToHistory clock0 ''USD'' ''EUR'' (Fin 25 2) ''50.00''
               (addToHistory clock0 ''USD'' ''EUR'' (Fin 25 2) ''50.00'' half_page))
       = [\<lparr>entry_id = now clock0, fromCurr = ''USD'', toCurr = ''EUR'', amount = Number 25 2,
           converted = ''50.00'', timestamp = localeString clock0\<rparr>]
   \<and> length (stored (addToHistory clock0 ''USD'' ''EUR'' (Fin 25 2) ''50.01''
               (addToHistory clock0 ''USD'' ''EUR'' (Fin 25 2) ''50.00'' half_page))) = 2"
proof -
  let ?once = "addToHistory clock0 ''USD'' ''EUR'' (Fin 25 2) ''50.00'' half_page"
  let ?e = "\<lparr>entry_id = now clock0, fromCurr = ''USD'', toCurr = ''EUR'', amount = Number 25 2,
             converted = ''50.00'', timestamp = localeString clock0\<rparr>"
  note rep = addToHistory_skips_repetition[of clock0 "''USD''" "''EUR''" 25 2 _ _ clock0]
  have e: "stored half_page = []"
    by (simp add: app_eval)
  have once: "stored ?once = [?e]"
    using rep[of "''50.00''" half_page, THEN conjunct1]
    by (simp add: e stored_loadHistory stored_set)
  have twice: "addToHistory clock0 ''USD'' ''EUR'' (Fin 25 2) ''50.00'' ?once = ?once"
    using rep[of "''50.00''" half_page, THEN conjunct2] .
  have other: "length (stored (addToHistory clock0 ''USD'' ''EUR'' (Fin 25 2) ''50.01'' ?once)) = 2"
    using rep[of "''50.01''" ?once, THEN conjunct1]
    by (simp add: once stored_loadHistory stored_set)
  show ?thesis
    using e once other by (simp only: twice simp_thms)
qed

text \<open>
  An amount that is not a real number is outside that data model. \<^verbatim>\<open>validateInput\<close>
  lets the text \<^verbatim>\<open>Infinity\<close> pass, though, should the amount field ever hold it, and
  \<^verbatim>\<open>JSON.stringify\<close> stores the infinite amount as \<^verbatim>\<open>null\<close>, which no Number equals:
  such a conversion is stored again every time.
\<close>

lemma non_finite_amount_is_stored_again:
  "\<not> same_as_last h f t PosInf conv"
  "length (stored (addToHistory c' f t PosInf conv (addToHistory c f t PosInf conv s)))
     = min 50 (length (stored s) + 2)"
proof -
  show n: "\<not> same_as_last h f t PosInf conv" for h
    by (auto simp: same_as_last_def strict_eq_def split: list.splits json_number.splits)
  show "length (stored (addToHistory c' f t PosInf conv (addToHistory c f t PosInf conv s)))
     = min 50 (length (stored s) + 2)"
    by (simp add: stored_addToHistory n)
qed

text \<open>
  Claim C8. An append never takes the stored history beyond 50 entries: a conversion
  that is not skipped is put in front and the list is cut to its first 50 entries, so
  on a list that is full the oldest entry, the last one, is dropped and the others keep
  their order behind the new one. No other event of the page takes the list beyond
  50 entries either.
\<close>

theorem history_capacity:
  assumes "length (stored s) \<le> 50"
  shows "length (stored (addToHistory c f t amt conv s)) \<le> 50
       \<and> (\<not> same_as_last (stored s) f t amt conv \<longrightarrow>
            stored (addToHistory c f t amt conv s) =
              take 50 (\<lparr>entry_id = now c, fromCurr = f, toCurr = t, amount = stringify_parse amt,
                         converted = conv, timestamp = localeString c\<rparr> # stored s))
       \<and> (\<not> same_as_last (stored s) f t amt conv \<and> length (stored s) = 50 \<longrightarrow>
            stored (addToHistory c f t amt conv s) =
              \<lparr>entry_id = now c, fromCurr = f, toCurr = t, amount = stringify_parse amt,
                converted = conv, timestamp = localeString c\<rparr> # butlast (stored s))
       \<and> length (stored (dispatch c ev s)) \<le> 50"
proof -
  have "take 49 h = butlast h" if "length h = 50" for h :: "entry list"
    using that by (simp add: butlast_conv_take)
  then show ?thesis
    using assms capacity_dispatch[OF assms, of c ev] by (auto simp: stored_addToHistory)
qed

theorem history_capacity_witness:
  "length (stored full_page) \<le> 50
   \<and> \<not> same_as_last (stored full_page) ''USD'' ''EUR'' (Fin 25 2) ''100.00''
   \<and> length (stored full_page) = 50
   \<and> length (stored (addToHistory clock0 ''USD'' ''EUR'' (Fin 25 2) ''100.00'' full_page)) = 50
   \<and> stored (addToHistory clock0 ''USD'' ''EUR'' (Fin 25 2) ''100.00'' full_page) =
        \<lparr>entry_id = now clock0, fromCurr = ''USD'', toCurr = ''EUR'', amount = Number 25 2,
          converted = ''100.00'', timestamp = localeString clock0\<rparr>
        # butlast (stored full_page)"
proof -
  have s: "stored full_page = map sample_entry (rev [1..<51])"
    by (simp add: full_page_def stored_loadHistory stored_set)
  have l: "length (stored full_page) = 50"
    by (simp add: s)
  have "[1..<Suc 50] = [1..<50] @ [50]"
    by (rule upt_Suc_append) simp
  then have h: "rev [1..<51] = 50 # rev [1..<50]"
    by simp
  have n: "\<not> same_as_last (stored full_page) ''USD'' ''EUR'' (Fin 25 2) ''100.00''"
    unfolding s h by (simp add: same_as_last_def sample_entry_def strict_eq_def)
  have le: "length (stored full_page) \<le> 50"
    by (simp add: l)
  have ev: "stored (addToHistory clock0 ''USD'' ''EUR'' (Fin 25 2) ''100.00'' full_page) =
        \<lparr>entry_id = now clock0, fromCurr = ''USD'', toCurr = ''EUR'', amount = Number 25 2,
          converted = ''100.00'', timestamp = localeString clock0\<rparr>
        # butlast (stored full_page)"
    using history_capacity[OF le, of clock0 "''USD''" "''EUR''" "Fin 25 2" "''100.00''",
        THEN conjunct2, THEN conjunct2, THEN conjunct1, rule_format, OF conjI[OF n l]]
    by (simp add: stringify_parse_def)
  have "length (stored (addToHistory clock0 ''USD'' ''EUR'' (Fin 25 2) ''100.00'' full_page)) = 50"
    by (simp add: ev l)
  then show ?thesis
    using le n l ev by simp
qed

text \<open>
  \<^verbatim>\<open>deleteHistoryItem\<close> keeps the entries whose id differs from the one given. On a
  history whose ids are pairwise distinct that removes exactly the one entry with that
  id, the entries before and after it staying as they are, and it changes nothing when
  no entry has the id.
\<close>

lemma deleteHistoryItem_distinct_ids:
  assumes "distinct (map entry_id (stored s))"
  shows "(i \<notin> entry_id ` set (stored s) \<longrightarrow> stored (deleteHistoryItem i s) = stored s)
       \<and> (\<forall>xs x ys. stored s = xs @ x # ys \<and> entry_id x = i \<longrightarrow>
            stored (deleteHistoryItem i s) = xs @ ys)"
proof -
  have del: "stored (deleteHistoryItem i s) = filter (\<lambda>entry. entry_id entry \<noteq> i) (stored s)"
    by (simp add: deleteHistoryItem_def Let_def stored_loadHistory stored_set)
  have "filter (\<lambda>entry. entry_id entry \<noteq> i) (stored s) = stored s"
    if "i \<notin> entry_id ` set (stored s)"
    using that by (auto simp: filter_id_conv)
  moreover have "filter (\<lambda>entry. entry_id entry \<noteq> i) (stored s) = xs @ ys"
    if "stored s = xs @ x # ys" "entry_id x = i" for xs x ys
  proof -
    have "i \<notin> entry_id ` set xs" "i \<notin> entry_id ` set ys"
      using assms that by auto
    then have "filter (\<lambda>entry. entry_id entry \<noteq> i) xs = xs"
      "filter (\<lambda>entry. entry_id entry \<noteq> i) ys = ys"
      by (auto simp: filter_id_conv)
    with that show ?thesis by simp
  qed
  ultimately show ?thesis
    using del by auto
qed

text \<open>
  Claim C5 asks that deleting an id removes exactly the one entry with that id and
  keeps every other entry, on every stored history. The code does not do that. The id
  of an entry is the clock reading \<^verbatim>\<open>Date.now()\<close> at its conversion, which the comment in
  \<^verbatim>\<open>addToHistory\<close> calls a unique id; two conversions in the same millisecond store two
  entries under one id, and \<^verbatim>\<open>deleteHistoryItem\<close>, documented to delete a specific
  entry, removes both. Here the user types 1 and then 2, both input events reading
  the same millisecond: the history holds the conversions of 12 and of 1 under one id,
  and deleting the entry of 12 leaves the history empty.
\<close>

theorem deleteHistoryItem_same_id_removes_both:
  "map entry_id (stored same_ms_page) = [now clock0, now clock0]
   \<and> map converted (stored same_ms_page) = [''6.00'', ''0.50'']
   \<and> stored (dispatch clock0 (ClickDelete (now clock0)) same_ms_page) = []"
proof -
  have s: "map entry_id (stored same_ms_page) = [now clock0, now clock0]"
    "map converted (stored same_ms_page) = [''6.00'', ''0.50'']"
    by (simp_all add: app_eval host_eval)
  have d: "stored (dispatch clock0 (ClickDelete (now clock0)) same_ms_page)
      = filter (\<lambda>entry. entry_id entry \<noteq> now clock0) (stored same_ms_page)"
    by (simp add: dispatch_def deleteHistoryItem_def Let_def stored_loadHistory stored_set)
  have "\<forall>x\<in>set (stored same_ms_page). entry_id x = now clock0"
    using s(1) by (metis (no_types, lifting) imageI list.set_map insert_iff list.simps(15) empty_iff
        empty_set)
  then have e: "stored (dispatch clock0 (ClickDelete (now clock0)) same_ms_page) = []"
    by (simp add: d filter_empty_conv)
  show ?thesis
    using s e by simp
qed

section \<open>Fetching and the cache\<close>

text \<open>
  Claim C3, as the code has it. The fetch itself writes the cache: sending the request
  changes nothing, and when the response is a success whose body parses, the
  continuation of \<^verbatim>\<open>fetchRatesOnce\<close> assigns \<^verbatim>\<open>data.rates\<close> to \<^verbatim>\<open>ratesCache\<close>, replacing
  what was there, and sets the time of the last update. Nothing else writes the cache:
  over all events of the page, the cache after the event is the cache before it unless
  the event is a request settling with such a response. No caller pushes a snapshot.
\<close>

theorem cache_written_by_fetch_only:
  "ratesCache (fetchRatesOnce s) = ratesCache s
   \<and> ratesCache (fetchRatesOnce_resume (Response True (Json rates)) c s) = rates
   \<and> lastUpdateTime (fetchRatesOnce_resume (Response True (Json rates)) c s) = Some (now c)
   \<and> ratesCache (dispatch c ev s) =
       (case ev of
          FetchSettles k r \<Rightarrow>
            (case r of
               Response ok b \<Rightarrow>
                 (case b of
                    Json rates' \<Rightarrow> if k < length (inflight s) \<and> ok then rates' else ratesCache s
                  | _ \<Rightarrow> ratesCache s)
             | _ \<Rightarrow> ratesCache s)
        | _ \<Rightarrow> ratesCache s)"
proof -
  have settle: "ratesCache (fetchRatesOnce_resume r c s') =
      (case r of
         Response ok b \<Rightarrow> (case b of Json rates' \<Rightarrow> if ok then rates' else ratesCache s'
                          | _ \<Rightarrow> ratesCache s')
       | _ \<Rightarrow> ratesCache s')" for r s'
    by (simp add: fetchRatesOnce_resume_def fetchRatesOnce_try_def ratesCache_updateStatus
          showError_frame split: response.splits body.splits)
  have "ratesCache (dispatch c ev s) =
       (case ev of
          FetchSettles k r \<Rightarrow>
            (case r of
               Response ok b \<Rightarrow>
                 (case b of
                    Json rates' \<Rightarrow> if k < length (inflight s) \<and> ok then rates' else ratesCache s
                  | _ \<Rightarrow> ratesCache s)
             | _ \<Rightarrow> ratesCache s)
        | _ \<Rightarrow> ratesCache s)"
  proof (cases ev)
    case (TimerFires h)
    then show ?thesis
      by (simp add: dispatch_def ratesCache_tick ratesCache_updateStatus clearInterval_def
            split: option.splits timer.splits)
  next
    case (FetchSettles k r)
    then show ?thesis
      by (simp add: dispatch_def settle split: response.splits body.splits)
  qed (simp_all add: dispatch_def ratesCache_convertIfValid ratesCache_performConversion
        swapCurrencies_def ratesCache_fetchRatesOnce clearForm_def toggleAutoUpdateMode_def
        ratesCache_startAutoUpdate deleteAllHistory_def deleteHistoryItem_def
        ratesCache_loadHistory Let_def)
  then show ?thesis
    by (simp add: ratesCache_fetchRatesOnce fetchRatesOnce_resume_success
          ratesCache_updateStatus updateStatus_def Let_def)
qed

theorem cache_written_by_fetch_only_witness:
  "ratesCache (dispatch clock0 (FetchSettles 0 three_quarters) fresh_page)
     = Rates [(''EUR'', Fin 3 (- 2))]
   \<and> ratesCache (dispatch clock0 (FetchSettles 0 (Response False Malformed)) fresh_page)
     = ratesCache fresh_page
   \<and> ratesCache (dispatch clock0 ClickSwap fresh_page) = ratesCache fresh_page"
proof -
  have i: "0 < length (inflight fresh_page)"
    by (simp add: app_eval)
  show ?thesis
    using cache_written_by_fetch_only[of fresh_page _ clock0 "FetchSettles 0 three_quarters"]
      cache_written_by_fetch_only[of fresh_page _ clock0 "FetchSettles 0 (Response False Malformed)"]
      cache_written_by_fetch_only[of fresh_page _ clock0 ClickSwap] i
    by (simp add: three_quarters_def)
qed

text \<open>
  The claim C3 as it is stated fails: on the page just loaded, whose cache is empty, the
  first request settling with a rate for the euro leaves a cache that differs from the
  one before.
\<close>

theorem fetch_modifies_cache_counterexample:
  "ratesCache fresh_page = Rates []
   \<and> inflight fresh_page = [API_URL @ ''USD'', API_URL @ ''USD'']
   \<and> ratesCache (dispatch clock0 (FetchSettles 0 three_quarters) fresh_page)
       = Rates [(''EUR'', Fin 3 (- 2))]
   \<and> ratesCache (dispatch clock0 (FetchSettles 0 three_quarters) fresh_page)
       \<noteq> ratesCache fresh_page"
  by (simp add: app_eval)

text \<open>
  Claim C9. When a fetch fails (the endpoint is not reached, the status is not a
  success, or the body does not parse) the cache is what it was before, and a
  conversion made afterwards for a currency with a positive rate in that cache
  succeeds: it displays the converted amount and shows no further error.
\<close>

theorem failed_fetch_keeps_cache:
  assumes "failed r"
  shows "ratesCache (fetchRatesOnce_resume r c s) = ratesCache s
       \<and> (\<forall>rs rate. gt_zero (parseFloat (amount_value s)) \<and> ratesCache s = Rates rs
              \<and> map_of rs (toCurrency_value s) = Some rate \<and> gt_zero rate \<longrightarrow>
            resultAmount_textContent (performConversion c' (fetchRatesOnce_resume r c s))
              = toFixed 2 (fmul (parseFloat (amount_value s)) rate)
          \<and> displayed (performConversion c' (fetchRatesOnce_resume r c s))
              = displayed (fetchRatesOnce_resume r c s))"
proof -
  let ?s' = "fetchRatesOnce_resume r c s"
  have s': "?s' = showError ''Failed to fetch rates. Please check your internet connection.'' s"
    using assms by (rule fetchRatesOnce_resume_failed)
  have keep: "ratesCache ?s' = ratesCache s" "amount_value ?s' = amount_value s"
    "toCurrency_value ?s' = toCurrency_value s"
    by (simp_all add: s' showError_frame)
  have "resultAmount_textContent (performConversion c' ?s')
          = toFixed 2 (fmul (parseFloat (amount_value s)) rate)
      \<and> displayed (performConversion c' ?s') = displayed ?s'"
    if "gt_zero (parseFloat (amount_value s))" "ratesCache s = Rates rs"
      "map_of rs (toCurrency_value s) = Some rate" "gt_zero rate" for rs rate
  proof -
    have "performConversion c' ?s' =
        addToHistory c' (fromCurrency_value ?s') (toCurrency_value ?s') (parseFloat (amount_value ?s'))
          (toFixed 2 (fmul (parseFloat (amount_value ?s')) rate))
          (displayResult (toFixed 2 (fmul (parseFloat (amount_value ?s')) rate)) rate
            (fromCurrency_value ?s') (toCurrency_value ?s') (parseFloat (amount_value ?s')) ?s')"
      using that by (intro performConversion_success[of ?s' rs rate]) (simp_all add: keep gt_zero_truthy)
    then show ?thesis
      by (simp add: addToHistory_frame displayResult_def keep)
  qed
  then show ?thesis
    using keep(1) by blast
qed

theorem failed_fetch_keeps_cache_witness:
  "failed Rejected \<and> failed (Response False Malformed) \<and> failed (Response True Malformed)
   \<and> ratesCache (fetchRatesOnce_resume Rejected clock0 half_page) = Rates [(''EUR'', Fin 1 (- 1))]
   \<and> resultAmount_textContent
        (performConversion clock0 (fetchRatesOnce_resume Rejected clock0 half_page)) = ''50.00''
   \<and> displayed (performConversion clock0 (fetchRatesOnce_resume Rejected clock0 half_page))
        = [''Failed to fetch rates. Please check your internet connection.'']"
proof -
  have f: "failed Rejected" "failed (Response False Malformed)" "failed (Response True Malformed)"
    by (simp_all add: failed_def)
  have a: "gt_zero (parseFloat (amount_value half_page))"
    by (simp add: app_eval host_eval)
  have r: "ratesCache half_page = Rates [(''EUR'', Fin 1 (- 1))]"
    by (simp add: app_eval)
  have t: "map_of [(''EUR'', Fin 1 (- 1))] (toCurrency_value half_page) = Some (Fin 1 (- 1))"
    by (simp add: app_eval)
  have p: "gt_zero (Fin 1 (- 1))"
    by (simp add: gt_zero_def)
  have v: "toFixed 2 (fmul (parseFloat (amount_value half_page)) (Fin 1 (- 1))) = ''50.00''"
    by (simp add: app_eval host_eval)
  have d: "displayed half_page = []"
    by (simp add: app_eval)
  note keep = failed_fetch_keeps_cache[OF f(1), of clock0 half_page clock0]
  have "resultAmount_textContent
          (performConversion clock0 (fetchRatesOnce_resume Rejected clock0 half_page)) = ''50.00''
      \<and> displayed (performConversion clock0 (fetchRatesOnce_resume Rejected clock0 half_page))
          = displayed (fetchRatesOnce_resume Rejected clock0 half_page)"
    using keep[THEN conjunct2, rule_format, of "[(''EUR'', Fin 1 (- 1))]" "Fin 1 (- 1)"] a r t p v
    by simp
  then show ?thesis
    using keep[THEN conjunct1] f r
    by (simp add: fetchRatesOnce_resume_failed displayed_showError d)
qed

text \<open>
  A body that parses but has no \<^verbatim>\<open>rates\<close> object is not a failure for
  \<^verbatim>\<open>fetchRatesOnce\<close>: nothing is thrown, the cache becomes \<^verbatim>\<open>undefined\<close>, and the
  conversions that follow fail until a later fetch brings rates again.
\<close>

lemma shapeless_body_clears_cache:
  "ratesCache (fetchRatesOnce_resume (Response True (Json Nullish)) c s) = Nullish"
  "gt_zero (parseFloat (amount_value s)) \<Longrightarrow>
   performConversion c' (fetchRatesOnce_resume (Response True (Json Nullish)) c s) =
     showError ''Conversion failed. Please try again.''
       (fetchRatesOnce_resume (Response True (Json Nullish)) c s)"
proof -
  let ?s' = "fetchRatesOnce_resume (Response True (Json Nullish)) c s"
  show c: "ratesCache ?s' = Nullish"
    by (simp add: fetchRatesOnce_resume_success ratesCache_updateStatus)
  have a: "amount_value ?s' = amount_value s"
    by (simp add: fetchRatesOnce_resume_success updateStatus_def Let_def split: option.splits)
  show "performConversion c' ?s' = showError ''Conversion failed. Please try again.'' ?s'"
    if "gt_zero (parseFloat (amount_value s))"
    using that by (intro performConversion_unavailable) (simp_all add: a c lookup_def)
qed

section \<open>The scheduler\<close>

text \<open>
  Claim C6, as the code has it. A tick of the update timer sends its request and then
  converts at once, without waiting for the response: the conversion reads the cache as
  it stood when the tick fired, which is the snapshot of an earlier fetch, and the
  request of the tick is still in flight when the handler returns. When that request
  settles its rates go into the cache, and the amount on display is still the one
  computed from the earlier snapshot.
\<close>

theorem tick_converts_with_cached_rates:
  assumes "autoUpdateEnabled s" and "gt_zero (parseFloat (amount_value s))"
    and "ratesCache s = Rates rs" and "map_of rs (toCurrency_value s) = Some r"
    and "gt_zero r"
  shows "resultAmount_textContent (tick c s) = toFixed 2 (fmul (parseFloat (amount_value s)) r)
       \<and> ratesCache (tick c s) = ratesCache s
       \<and> inflight (tick c s) = inflight s @ [API_URL @ fromCurrency_value s]
       \<and> ratesCache (dispatch c' (FetchSettles (length (inflight s)) (Response True (Json new)))
                      (tick c s)) = new
       \<and> resultAmount_textContent
            (dispatch c' (FetchSettles (length (inflight s)) (Response True (Json new))) (tick c s))
           = toFixed 2 (fmul (parseFloat (amount_value s)) r)"
proof -
  let ?s1 = "s\<lparr>statusDot_updating := True,
          inflight := inflight s @ [API_URL @ fromCurrency_value s],
          timers := timers s @ [(nextHandle s, DotOff)],
          nextHandle := nextHandle s + 1\<rparr>"
  have t: "tick c s = performConversion c ?s1"
    using assms(1,2) by (rule tick_enabled)
  have "gt_zero (parseFloat (amount_value ?s1))" "ratesCache ?s1 = Rates rs"
    "map_of rs (toCurrency_value ?s1) = Some r"
    using assms by simp_all
  from performConversion_displays(1)[OF this gt_zero_truthy[OF assms(5)], of c]
  have shown: "resultAmount_textContent (tick c s) = toFixed 2 (fmul (parseFloat (amount_value s)) r)"
    by (simp add: t)
  have fl: "inflight (tick c s) = inflight s @ [API_URL @ fromCurrency_value s]"
    by (simp add: t performConversion_frame)
  have settle: "dispatch c' (FetchSettles (length (inflight s)) (Response True (Json new))) (tick c s)
      = updateStatus c' ((tick c s)\<lparr>inflight := inflight s, ratesCache := new,
                                     lastUpdateTime := Some (now c')\<rparr>)"
    by (simp add: dispatch_def fl fetchRatesOnce_resume_success)
  have "resultAmount_textContent (updateStatus c' s') = resultAmount_textContent s'" for s'
    by (simp add: updateStatus_def Let_def split: option.splits)
  then show ?thesis
    by (simp add: shown fl settle ratesCache_tick ratesCache_updateStatus)
qed

theorem tick_converts_with_cached_rates_witness:
  "autoUpdateEnabled half_page
   \<and> gt_zero (parseFloat (amount_value half_page))
   \<and> ratesCache half_page = Rates [(''EUR'', Fin 1 (- 1))]
   \<and> map_of [(''EUR'', Fin 1 (- 1))] (toCurrency_value half_page) = Some (Fin 1 (- 1))
   \<and> gt_zero (Fin 1 (- 1))
   \<and> resultAmount_textContent (tick clock0 half_page) = ''50.00''
   \<and> inflight (tick clock0 half_page) = [API_URL @ ''USD'', API_URL @ ''USD'']"
proof -
  have e: "autoUpdateEnabled half_page"
    by (simp add: app_eval)
  have a: "gt_zero (parseFloat (amount_value half_page))"
    by (simp add: app_eval host_eval)
  have r: "ratesCache half_page = Rates [(''EUR'', Fin 1 (- 1))]"
    by (simp add: app_eval)
  have t: "map_of [(''EUR'', Fin 1 (- 1))] (toCurrency_value half_page) = Some (Fin 1 (- 1))"
    by (simp add: app_eval)
  have p: "gt_zero (Fin 1 (- 1))"
    by (simp add: gt_zero_def)
  have v: "toFixed 2 (fmul (parseFloat (amount_value half_page)) (Fin 1 (- 1))) = ''50.00''"
    by (simp add: app_eval host_eval)
  have i: "inflight half_page = [API_URL @ ''USD'']" "fromCurrency_value half_page = ''USD''"
    by (simp_all add: app_eval)
  show ?thesis
    using tick_converts_with_cached_rates[OF e a r t p, of clock0] e a r t p
    by (simp add: v i)
qed

text \<open>
  The claim C6 as it is stated fails: with one half cached for the euro and 100 in the
  amount field, the tick displays 50.00; its own request then brings three quarters,
  which would have given 75.00.
\<close>

theorem tick_uses_earlier_snapshot_counterexample:
  "ratesCache half_page = Rates [(''EUR'', Fin 1 (- 1))]
   \<and> map_of (timers half_page) 2 = Some AutoUpdate
   \<and> resultAmount_textContent ticked_page = ''50.00''
   \<and> inflight ticked_page = [API_URL @ ''USD'', API_URL @ ''USD'']
   \<and> ratesCache (dispatch clock0 (FetchSettles 1 three_quarters) ticked_page)
       = Rates [(''EUR'', Fin 3 (- 2))]
   \<and> resultAmount_textContent (dispatch clock0 (FetchSettles 1 three_quarters) ticked_page)
       = ''50.00''
   \<and> toFixed 2 (fmul (parseFloat ''100'') (Fin 3 (- 2))) = ''75.00''
   \<and> resultAmount_textContent ticked_page \<noteq> toFixed 2 (fmul (parseFloat ''100'') (Fin 3 (- 2)))"
proof -
  have h: "ratesCache half_page = Rates [(''EUR'', Fin 1 (- 1))]"
    "map_of (timers half_page) 2 = Some AutoUpdate"
    by (simp_all add: app_eval)
  have t: "resultAmount_textContent ticked_page = ''50.00''"
    "inflight ticked_page = [API_URL @ ''USD'', API_URL @ ''USD'']"
    by (simp_all add: app_eval host_eval)
  have s: "ratesCache (dispatch clock0 (FetchSettles 1 three_quarters) ticked_page)
       = Rates [(''EUR'', Fin 3 (- 2))]"
    "resultAmount_textContent (dispatch clock0 (FetchSettles 1 three_quarters) ticked_page)
       = ''50.00''"
    by (simp_all add: dispatch_def t three_quarters_def fetchRatesOnce_resume_success
          ratesCache_updateStatus updateStatus_def Let_def split: option.splits)
  have v: "toFixed 2 (fmul (parseFloat ''100'') (Fin 3 (- 2))) = ''75.00''"
    by (simp add: host_eval)
  have n: "resultAmount_textContent ticked_page \<noteq> toFixed 2 (fmul (parseFloat ''100'') (Fin 3 (- 2)))"
    by (simp add: t v)
  show ?thesis
    by (intro conjI) (fact h t s v n)+
qed

text \<open>
  Claim C4, as the code has it. Turning the automatic update off only clears the flag
  (and relabels the button): the timer stays live under the same handle and its ticks
  do nothing. Turning it on again sets the flag and restarts the scheduler:
  \<^verbatim>\<open>startAutoUpdate\<close> cancels the timer of the old handle, sends a request at once and
  arms a new timer, whose fresh handle replaces the old one.
\<close>

theorem toggle_pauses_and_restarts:
  "(autoUpdateEnabled s \<longrightarrow>
      toggleAutoUpdateMode s =
        s\<lparr>autoUpdateEnabled := False, toggleAutoUpdate_textContent := ''Auto-Update: OFF'',
          toggleAutoUpdate_active := False\<rparr>
      \<and> timers (toggleAutoUpdateMode s) = timers s
      \<and> updateIntervalId (toggleAutoUpdateMode s) = updateIntervalId s
      \<and> tick c (toggleAutoUpdateMode s) = toggleAutoUpdateMode s)
   \<and> (\<not> autoUpdateEnabled s \<longrightarrow>
      autoUpdateEnabled (toggleAutoUpdateMode s)
      \<and> updateIntervalId (toggleAutoUpdateMode s) = Some (nextHandle s)
      \<and> timers (toggleAutoUpdateMode s) =
          filter (\<lambda>(i, t). \<not> (updateIntervalId s = Some i \<and> i \<noteq> 0)) (timers s)
          @ [(nextHandle s, AutoUpdate)]
      \<and> inflight (toggleAutoUpdateMode s) = inflight s @ [API_URL @ fromCurrency_value s])"
  by (simp add: toggle_off toggle_on startAutoUpdate_effect tick_disabled)

theorem toggle_pauses_and_restarts_witness:
  "autoUpdateEnabled fresh_page
   \<and> updateIntervalId fresh_page = Some 2
   \<and> timers fresh_page = [(1, StatusRefresh), (2, AutoUpdate)]
   \<and> timers (toggleAutoUpdateMode fresh_page) = [(1, StatusRefresh), (2, AutoUpdate)]
   \<and> updateIntervalId (toggleAutoUpdateMode fresh_page) = Some 2
   \<and> \<not> autoUpdateEnabled (toggleAutoUpdateMode fresh_page)
   \<and> tick clock0 (toggleAutoUpdateMode fresh_page) = toggleAutoUpdateMode fresh_page
   \<and> updateIntervalId (toggleAutoUpdateMode (toggleAutoUpdateMode fresh_page)) = Some 3
   \<and> timers (toggleAutoUpdateMode (toggleAutoUpdateMode fresh_page))
       = [(1, StatusRefresh), (3, AutoUpdate)]"
proof -
  have f: "autoUpdateEnabled fresh_page" "updateIntervalId fresh_page = Some 2"
    "timers fresh_page = [(1, StatusRefresh), (2, AutoUpdate)]" "nextHandle fresh_page = 3"
    by (simp_all add: app_eval)
  note off = toggle_pauses_and_restarts[of fresh_page clock0, THEN conjunct1, rule_format, OF f(1)]
  have t: "timers (toggleAutoUpdateMode fresh_page) = [(1, StatusRefresh), (2, AutoUpdate)]"
    "updateIntervalId (toggleAutoUpdateMode fresh_page) = Some 2"
    using off by (simp_all add: f)
  have o: "\<not> autoUpdateEnabled (toggleAutoUpdateMode fresh_page)"
    "nextHandle (toggleAutoUpdateMode fresh_page) = 3"
    using off by (simp_all add: f)
  have k: "tick clock0 (toggleAutoUpdateMode fresh_page) = toggleAutoUpdateMode fresh_page"
    using off by blast
  note on = toggle_pauses_and_restarts[of "toggleAutoUpdateMode fresh_page" clock0,
      THEN conjunct2, rule_format, OF o(1)]
  have r: "updateIntervalId (toggleAutoUpdateMode (toggleAutoUpdateMode fresh_page)) = Some 3"
    "timers (toggleAutoUpdateMode (toggleAutoUpdateMode fresh_page))
       = [(1, StatusRefresh), (3, AutoUpdate)]"
    using on by (simp_all add: o t)
  show ?thesis
    by (intro conjI) (fact f t o k r)+
qed

text \<open>
  The claim C4 as it is stated fails: on the page just loaded the update timer has the
  handle 2; after the toggle button has been clicked twice the handle is 3, the timer 2
  is gone, the timer 3 is live, and one more request has been sent.
\<close>

theorem toggle_rearms_timer_counterexample:
  "updateIntervalId fresh_page = Some 2
   \<and> map_of (timers fresh_page) 2 = Some AutoUpdate
   \<and> updateIntervalId (dispatch clock0 ClickToggle (dispatch clock0 ClickToggle fresh_page)) = Some 3
   \<and> updateIntervalId (dispatch clock0 ClickToggle (dispatch clock0 ClickToggle fresh_page))
       \<noteq> updateIntervalId fresh_page
   \<and> map_of (timers (dispatch clock0 ClickToggle (dispatch clock0 ClickToggle fresh_page))) 2 = None
   \<and> map_of (timers (dispatch clock0 ClickToggle (dispatch clock0 ClickToggle fresh_page))) 3
       = Some AutoUpdate
   \<and> length (inflight (dispatch clock0 ClickToggle (dispatch clock0 ClickToggle fresh_page)))
       = length (inflight fresh_page) + 1"
  by (simp add: app_eval)

end
